theory Spec2Isabelle
  imports Complex_Main "HOL-Library.AList"
begin

section \<open>Linear programs: variables, expressions, constraints\<close>

text \<open>
  The three variable dictionaries of \<^verbatim>\<open>cli.py\<close> (\<^verbatim>\<open>assignment[(t, g, c)]\<close>,
  \<^verbatim>\<open>chef[(t, g, c)]\<close>, \<^verbatim>\<open>arc[(c, i, j, t, g)]\<close>), the continuous variable
  \<^verbatim>\<open>maxDuration\<close> and the optional dictionary \<^verbatim>\<open>largeTeam[t]\<close>. The
  arguments keep the order of the source's key tuples.
\<close>

datatype var =
    Assignment nat nat nat
  | Chef nat nat nat
  | Arc nat nat nat nat nat
  | MaxDuration
  | LargeTeam nat

text \<open>
  An affine expression is a list of weighted variables and a constant. Numbers are
  real: the rounding of Python's floats is not modelled.
\<close>

type_synonym linexpr = "(real \<times> var) list \<times> real"

datatype sense = LE | EQ | GE

datatype constr = Constr linexpr sense linexpr

definition lpSum :: "(real \<times> var) list \<Rightarrow> linexpr" where
  "lpSum ts = (ts, 0)"

definition lpVar :: "var \<Rightarrow> linexpr" where
  "lpVar x = ([(1, x)], 0)"

definition lpConst :: "real \<Rightarrow> linexpr" where
  "lpConst k = ([], k)"

definition lpAdd :: "linexpr \<Rightarrow> linexpr \<Rightarrow> linexpr" where
  "lpAdd e1 e2 = (fst e1 @ fst e2, snd e1 + snd e2)"

definition lpScale :: "real \<Rightarrow> linexpr \<Rightarrow> linexpr" where
  "lpScale a e = (map (\<lambda>(b, x). (a * b, x)) (fst e), a * snd e)"

definition lpSub :: "linexpr \<Rightarrow> linexpr \<Rightarrow> linexpr" where
  "lpSub e1 e2 = lpAdd e1 (lpScale (- 1) e2)"

definition terms_value :: "(var \<Rightarrow> real) \<Rightarrow> (real \<times> var) list \<Rightarrow> real" where
  "terms_value v ts = (\<Sum>(a, x)\<leftarrow>ts. a * v x)"

definition lp_value :: "(var \<Rightarrow> real) \<Rightarrow> linexpr \<Rightarrow> real" where
  "lp_value v e = terms_value v (fst e) + snd e"

fun sat :: "(var \<Rightarrow> real) \<Rightarrow> constr \<Rightarrow> bool" where
  "sat v (Constr l LE r) = (lp_value v l \<le> lp_value v r)"
| "sat v (Constr l EQ r) = (lp_value v l = lp_value v r)"
| "sat v (Constr l GE r) = (lp_value v l \<ge> lp_value v r)"

section \<open>Problem data\<close>

datatype error =
    SystemExit int
  | ZeroDivisionError
  | ValueError
  | KeyError
  | IndexError
  | TypeError
  | AttributeError
  | ConnectionError

text \<open>
  The command-line options the model depends on (\<^verbatim>\<open>args\<close>), with argparse's types.
\<close>

record args =
  num_courses :: int
  min_travel :: int
  large_teams :: int
  cook_incompatible :: "int list"
  can_meet_again :: bool
  can_stay :: bool
  ignore_preferences :: bool
  asymetric_distances :: bool
  ignore_avg_dist :: bool
  ignore_max_dist :: bool
  afterparty :: "string option"
  datetime_1 :: int
  datetime_2 :: "int option"
  datetime_3 :: "int option"
  datetime_afterparty :: "int option"

text \<open>The defaults of the argument parser; \<^verbatim>\<open>--datetime-1\<close> is required.\<close>

definition default_args :: "int \<Rightarrow> args" where
  "default_args dt1 = \<lparr>num_courses = 3, min_travel = 1, large_teams = 0,
     cook_incompatible = [], can_meet_again = False, can_stay = False,
     ignore_preferences = False, asymetric_distances = False,
     ignore_avg_dist = False, ignore_max_dist = False, afterparty = None,
     datetime_1 = dt1, datetime_2 = None, datetime_3 = None, datetime_afterparty = None\<rparr>"

text \<open>
  What the model builder reads once the input is assembled: the options, the number of
  rows of \<^verbatim>\<open>data\<close>, each team's address and preference per course
  (\<^verbatim>\<open>data[t]["addr"]\<close>, \<^verbatim>\<open>data[t][f"pref{c + 1}"]\<close>), and the distance matrix with
  its two kinds of key, \<^verbatim>\<open>(i, j, c)\<close> and \<^verbatim>\<open>(t, "afterparty")\<close>.
\<close>

record problem =
  opts :: args
  n_teams :: nat
  addr :: "nat \<Rightarrow> string"
  pref :: "nat \<Rightarrow> nat \<Rightarrow> real"
  distance_matrix :: "nat \<Rightarrow> nat \<Rightarrow> nat \<Rightarrow> real"
  afterparty_dist :: "nat \<Rightarrow> real"

definition n_courses :: "problem \<Rightarrow> nat" where
  "n_courses p = nat (num_courses (opts p))"

definition courses :: "problem \<Rightarrow> nat list" where
  "courses p = [0..<n_courses p]"

definition teams :: "problem \<Rightarrow> nat list" where
  "teams p = [0..<n_teams p]"

definition n_groups :: "problem \<Rightarrow> nat" where
  "n_groups p = n_teams p div n_courses p"

definition groups :: "problem \<Rightarrow> nat list" where
  "groups p = [0..<n_groups p]"


section \<open>The model builder\<close>

text \<open>
  Team, group and course indices are small integers, for which Python's \<^verbatim>\<open>is not\<close>
  (used by the source to skip self-arcs) agrees with inequality.
\<close>

definition bind_err :: "error + 'a \<Rightarrow> ('a \<Rightarrow> error + 'b) \<Rightarrow> error + 'b" where
  "bind_err r f = (case r of Inl e \<Rightarrow> Inl e | Inr x \<Rightarrow> f x)"

subsection \<open>Objective\<close>

definition max_pref :: "problem \<Rightarrow> error + real" where
  "max_pref p =
     (if ignore_preferences (opts p) then Inr 0
      else (case [pref p t c. t \<leftarrow> teams p, c \<leftarrow> courses p] of
              [] \<Rightarrow> Inl ValueError
            | x # xs \<Rightarrow> Inr (fold max xs x)))"

definition counted_prefs :: "problem \<Rightarrow> (nat \<times> nat \<times> nat) list" where
  "counted_prefs p =
     [(t, g, c). t \<leftarrow> teams p, g \<leftarrow> groups p, c \<leftarrow> courses p, pref p t c > - 1000]"

definition preferences :: "problem \<Rightarrow> real \<Rightarrow> error + linexpr" where
  "preferences p mp =
     (if ignore_preferences (opts p) then Inr (lpConst 0)
      else if counted_prefs p \<noteq> [] \<and> mp = 0 then Inl ZeroDivisionError
      else Inr (lpSum [(pref p t c / mp, Chef t g c). (t, g, c) \<leftarrow> counted_prefs p]))"

definition leg_cost :: "problem \<Rightarrow> nat \<Rightarrow> nat \<Rightarrow> nat \<Rightarrow> real" where
  "leg_cost p c i j =
     (if c = last (courses p) then afterparty_dist p j else 0) + distance_matrix p i j c"

definition route_terms :: "problem \<Rightarrow> nat \<Rightarrow> (real \<times> var) list" where
  "route_terms p t =
     [(leg_cost p c i j, Arc c i j t g).
        c \<leftarrow> courses p, i \<leftarrow> teams p, j \<leftarrow> teams p, g \<leftarrow> groups p, j \<noteq> i]"

definition distance_sum :: "problem \<Rightarrow> linexpr" where
  "distance_sum p =
     (if ignore_avg_dist (opts p) then lpConst 0
      else lpSum (concat (map (route_terms p) (teams p))))"

definition objective :: "problem \<Rightarrow> error + linexpr" where
  "objective p =
     bind_err (max_pref p) (\<lambda>mp.
     bind_err (preferences p mp) (\<lambda>pr.
       if n_teams p = 0 then Inl ZeroDivisionError
       else Inr (lpSub
              (lpAdd (if ignore_max_dist (opts p) then lpConst 0 else lpVar MaxDuration)
                     (lpScale (1 / 10) (lpScale (1 / real (n_teams p)) (distance_sum p))))
              (lpScale 20 pr))))"

subsection \<open>Constraints, in the order the source adds them\<close>

definition assign_once_constr :: "problem \<Rightarrow> nat \<Rightarrow> nat \<Rightarrow> constr" where
  "assign_once_constr p t c =
     Constr (lpSum [(1, Assignment t g c). g \<leftarrow> groups p]) EQ (lpConst 1)"

definition assign_once :: "problem \<Rightarrow> constr list" where
  "assign_once p = [assign_once_constr p t c. t \<leftarrow> teams p, c \<leftarrow> courses p]"

definition group_size_constr :: "problem \<Rightarrow> nat \<Rightarrow> nat \<Rightarrow> constr" where
  "group_size_constr p g c =
     Constr (lpSum [(1, Assignment t g c). t \<leftarrow> teams p]) EQ
            (lpConst (real (length (courses p))))"

definition group_size :: "problem \<Rightarrow> constr list" where
  "group_size p = [group_size_constr p g c. g \<leftarrow> groups p, c \<leftarrow> courses p]"

definition meet_constr :: "nat \<Rightarrow> nat \<Rightarrow> nat \<Rightarrow> nat \<Rightarrow> nat \<Rightarrow> nat \<Rightarrow> constr" where
  "meet_constr c1 c2 g1 g2 t1 t2 =
     Constr (lpSum [(1, Assignment t1 g1 c1), (1, Assignment t2 g1 c1),
                    (1, Assignment t1 g2 c2), (1, Assignment t2 g2 c2)]) LE (lpConst 3)"

definition meet_once :: "problem \<Rightarrow> constr list" where
  "meet_once p =
     (if can_meet_again (opts p) then []
      else [meet_constr c1 c2 g1 g2 t1 t2.
              c1 \<leftarrow> [0..<length (courses p)], c2 \<leftarrow> [c1 + 1..<length (courses p)],
              g1 \<leftarrow> groups p, g2 \<leftarrow> groups p,
              t1 \<leftarrow> [0..<length (teams p)], t2 \<leftarrow> [t1 + 1..<length (teams p)]])"

definition no_chef_constr :: "nat \<Rightarrow> nat \<Rightarrow> nat \<Rightarrow> constr" where
  "no_chef_constr t g c = Constr (lpVar (Chef t g c)) EQ (lpConst 0)"

definition no_chef :: "problem \<Rightarrow> constr list" where
  "no_chef p =
     (if ignore_preferences (opts p) then []
      else [no_chef_constr t g c.
              t \<leftarrow> teams p, c \<leftarrow> courses p, pref p t c \<le> - 1000, g \<leftarrow> groups p])"

definition one_chef_constr :: "problem \<Rightarrow> nat \<Rightarrow> nat \<Rightarrow> constr" where
  "one_chef_constr p g c =
     Constr (lpSum [(1, Chef t g c). t \<leftarrow> teams p]) EQ (lpConst 1)"

definition one_chef :: "problem \<Rightarrow> constr list" where
  "one_chef p = [one_chef_constr p g c. g \<leftarrow> groups p, c \<leftarrow> courses p]"

definition chef_once_constr :: "problem \<Rightarrow> nat \<Rightarrow> constr" where
  "chef_once_constr p t =
     Constr (lpSum [(1, Chef t g c). g \<leftarrow> groups p, c \<leftarrow> courses p]) EQ (lpConst 1)"

definition chef_once :: "problem \<Rightarrow> constr list" where
  "chef_once p = [chef_once_constr p t. t \<leftarrow> teams p]"

definition chef_if_assigned_constr :: "nat \<Rightarrow> nat \<Rightarrow> nat \<Rightarrow> constr" where
  "chef_if_assigned_constr t g c =
     Constr (lpVar (Chef t g c)) LE (lpVar (Assignment t g c))"

definition chef_if_assigned :: "problem \<Rightarrow> constr list" where
  "chef_if_assigned p =
     [chef_if_assigned_constr t g c. t \<leftarrow> teams p, g \<leftarrow> groups p, c \<leftarrow> courses p]"

definition arc_if_assigned_constr :: "problem \<Rightarrow> nat \<Rightarrow> nat \<Rightarrow> nat \<Rightarrow> constr" where
  "arc_if_assigned_constr p t g c =
     Constr (lpSum [(1, Arc c i j t g). i \<leftarrow> teams p, j \<leftarrow> teams p]) EQ
            (lpVar (Assignment t g c))"

definition arc_if_assigned :: "problem \<Rightarrow> constr list" where
  "arc_if_assigned p =
     [arc_if_assigned_constr p t g c. t \<leftarrow> teams p, g \<leftarrow> groups p, c \<leftarrow> courses p]"

definition start_at_self_constr :: "problem \<Rightarrow> nat \<Rightarrow> nat \<Rightarrow> constr" where
  "start_at_self_constr p t g =
     Constr (lpSum [(1, Arc (hd (courses p)) t j t g). j \<leftarrow> teams p]) EQ
            (lpVar (Assignment t g (hd (courses p))))"

definition start_at_self :: "problem \<Rightarrow> constr list" where
  "start_at_self p = [start_at_self_constr p t g. t \<leftarrow> teams p, g \<leftarrow> groups p]"

definition only_to_chef_constr :: "nat \<Rightarrow> nat \<Rightarrow> nat \<Rightarrow> nat \<Rightarrow> nat \<Rightarrow> constr" where
  "only_to_chef_constr c i j t g =
     Constr (lpVar (Arc c i j t g)) LE (lpVar (Chef j g c))"

definition only_to_chef :: "problem \<Rightarrow> constr list" where
  "only_to_chef p =
     [only_to_chef_constr c i j t g.
        c \<leftarrow> courses p, t \<leftarrow> teams p, g \<leftarrow> groups p, i \<leftarrow> teams p, j \<leftarrow> teams p]"

definition leave_if_entering_constr :: "problem \<Rightarrow> nat \<Rightarrow> nat \<Rightarrow> nat \<Rightarrow> constr" where
  "leave_if_entering_constr p c t i =
     Constr (lpSum [(1, Arc c i j t g). j \<leftarrow> teams p, g \<leftarrow> groups p, j \<noteq> i]) EQ
            (lpSum [(1, Arc (c - 1) r i t g). r \<leftarrow> teams p, g \<leftarrow> groups p])"

definition leave_if_entering :: "problem \<Rightarrow> constr list" where
  "leave_if_entering p =
     [leave_if_entering_constr p c t i.
        c \<leftarrow> [1..<length (courses p)], t \<leftarrow> teams p, i \<leftarrow> teams p]"

definition max_dist_constr :: "problem \<Rightarrow> nat \<Rightarrow> constr" where
  "max_dist_constr p t = Constr (lpSum (route_terms p t)) LE (lpVar MaxDuration)"

definition max_dist :: "problem \<Rightarrow> constr list" where
  "max_dist p =
     (if ignore_max_dist (opts p) then [] else [max_dist_constr p t. t \<leftarrow> teams p])"

definition min_time_terms :: "problem \<Rightarrow> nat \<Rightarrow> (real \<times> var) list" where
  "min_time_terms p t =
     [(distance_matrix p i j c, Arc c i j t g).
        c \<leftarrow> courses p, i \<leftarrow> teams p, j \<leftarrow> teams p, g \<leftarrow> groups p, j \<noteq> i]"

definition min_time_constr :: "problem \<Rightarrow> nat \<Rightarrow> constr" where
  "min_time_constr p t =
     Constr (lpSum (min_time_terms p t)) GE (lpConst (real_of_int (min_travel (opts p))))"

definition min_time :: "problem \<Rightarrow> constr list" where
  "min_time p = [min_time_constr p t. t \<leftarrow> teams p]"

definition no_stay_constr :: "nat \<Rightarrow> nat \<Rightarrow> nat \<Rightarrow> nat \<Rightarrow> nat \<Rightarrow> constr" where
  "no_stay_constr c i j t g = Constr (lpVar (Arc c i j t g)) EQ (lpConst 0)"

definition no_stay :: "problem \<Rightarrow> constr list" where
  "no_stay p =
     (if can_stay (opts p) then []
      else [no_stay_constr c i j t g.
              t \<leftarrow> teams p, c \<leftarrow> courses p, g \<leftarrow> groups p, j \<leftarrow> teams p, i \<leftarrow> teams p,
              i \<noteq> j, distance_matrix p i j c \<le> 1])"

text \<open>\<^verbatim>\<open>itertools.combinations(xs, 2)\<close>: the pairs of positions in increasing order.\<close>

fun combinations2 :: "'a list \<Rightarrow> ('a \<times> 'a) list" where
  "combinations2 [] = []"
| "combinations2 (x # xs) = map (Pair x) xs @ combinations2 xs"

definition incompatible_constr :: "nat \<Rightarrow> nat \<Rightarrow> nat \<Rightarrow> nat \<Rightarrow> constr" where
  "incompatible_constr t1 t2 g c =
     Constr (lpVar (Assignment t1 g c)) LE (lpSub (lpConst 1) (lpVar (Chef t2 g c)))"

definition incompatible :: "problem \<Rightarrow> constr list" where
  "incompatible p =
     [incompatible_constr (nat t1) (nat t2) g c.
        (t1, t2) \<leftarrow> combinations2 (cook_incompatible (opts p)),
        c \<leftarrow> courses p, g \<leftarrow> groups p]"

text \<open>
  The dictionaries have the keys \<^verbatim>\<open>0 .. len(data) - 1\<close> only: any other team number
  in \<^verbatim>\<open>--cook-incompatible\<close> raises KeyError at the first constraint that uses it.
\<close>

definition incompatible_keys_ok :: "problem \<Rightarrow> bool" where
  "incompatible_keys_ok p =
     (courses p = [] \<or> groups p = [] \<or>
      (\<forall>(t1, t2) \<in> set (combinations2 (cook_incompatible (opts p))).
          0 \<le> t1 \<and> t1 < int (n_teams p) \<and> 0 \<le> t2 \<and> t2 < int (n_teams p)))"

definition large_team :: "problem \<Rightarrow> constr list" where
  "large_team p =
     (if large_teams (opts p) > 0 then
        Constr (lpSum [(1, LargeTeam t). t \<leftarrow> teams p]) EQ
               (lpConst (real_of_int (large_teams (opts p)))) #
        [Constr (lpSum [(1, Assignment t1 g c), (1, Assignment t2 g c),
                        (1, LargeTeam t1), (1, LargeTeam t2)]) LE (lpConst 3).
           c \<leftarrow> courses p, g \<leftarrow> groups p, t1 \<leftarrow> teams p, t2 \<leftarrow> teams p, t1 \<noteq> t2]
      else [])"

text \<open>
  \<^verbatim>\<open>same_addr_team\<close>: a dictionary from address to the teams living there, filled in
  team order; a dictionary keeps its keys in the order of their first insertion.
\<close>

definition same_addr_team :: "problem \<Rightarrow> (string \<times> nat list) list" where
  "same_addr_team p =
     fold (\<lambda>t m. case map_of m (addr p t) of
                    None \<Rightarrow> m @ [(addr p t, [t])]
                  | Some ts \<Rightarrow> AList.update (addr p t) (ts @ [t]) m)
          (teams p) []"

definition same_address :: "problem \<Rightarrow> constr list" where
  "same_address p =
     [Constr (lpSum [(1, Chef i g c). i \<leftarrow> dup_teams, g \<leftarrow> groups p]) LE
             (lpConst (max 1 (of_int \<lceil>real (length dup_teams) / real (length (courses p))\<rceil>))).
        (a, dup_teams) \<leftarrow> same_addr_team p, length dup_teams > 1, c \<leftarrow> courses p]"

definition all_constraints :: "problem \<Rightarrow> constr list" where
  "all_constraints p =
     assign_once p @ group_size p @ meet_once p @ no_chef p @ one_chef p @ chef_once p @
     chef_if_assigned p @ arc_if_assigned p @ start_at_self p @ only_to_chef p @
     leave_if_entering p @ max_dist p @ min_time p @ no_stay p @ incompatible p @
     large_team p @ same_address p"

definition binary_vars :: "problem \<Rightarrow> var list" where
  "binary_vars p =
     [Assignment t g c. t \<leftarrow> teams p, g \<leftarrow> groups p, c \<leftarrow> courses p] @
     [Chef t g c. t \<leftarrow> teams p, g \<leftarrow> groups p, c \<leftarrow> courses p] @
     [Arc c i j t g. c \<leftarrow> courses p, i \<leftarrow> teams p, j \<leftarrow> teams p, t \<leftarrow> teams p, g \<leftarrow> groups p] @
     (if large_teams (opts p) > 0 then [LargeTeam t. t \<leftarrow> teams p] else [])"

record model =
  objective_of :: linexpr
  constraints :: "constr list"
  binaries :: "var list"

text \<open>
  Building the model fails where the source raises: the group count divides by the
  number of courses, \<^verbatim>\<open>max\<close> of no preference, the division by \<^verbatim>\<open>max_pref\<close>, the
  division by \<^verbatim>\<open>len(teams)\<close> in the objective, and a team number outside the
  dictionaries.
\<close>

definition build_model :: "problem \<Rightarrow> error + model" where
  "build_model p =
     (if courses p = [] then Inl ZeroDivisionError
      else bind_err (objective p) (\<lambda>obj.
        if \<not> incompatible_keys_ok p then Inl KeyError
        else Inr \<lparr>objective_of = obj, constraints = all_constraints p,
                  binaries = binary_vars p\<rparr>))"

section \<open>Feasible solutions\<close>

text \<open>
  A solution gives every variable a value. A binary (or 0/1 integer) variable takes 0
  or 1, \<^verbatim>\<open>maxDuration\<close> has lower bound 0, and every constraint holds.
\<close>

definition feasible :: "model \<Rightarrow> (var \<Rightarrow> real) \<Rightarrow> bool" where
  "feasible m v \<longleftrightarrow>
     (\<forall>x \<in> set (binaries m). v x = 0 \<or> v x = 1) \<and> 0 \<le> v MaxDuration \<and>
     (\<forall>k \<in> set (constraints m). sat v k)"

definition feasible_for :: "problem \<Rightarrow> (var \<Rightarrow> real) \<Rightarrow> bool" where
  "feasible_for p v = (case build_model p of Inl e \<Rightarrow> False | Inr m \<Rightarrow> feasible m v)"

section \<open>The solution decoder\<close>

text \<open>
  The group view: for every course and group, the teams whose assignment variable has
  value 1, in team order; a team whose chef variable has value 1 is stored under
  \<^verbatim>\<open>"cook"\<close> (overwriting what was there), any other is appended to \<^verbatim>\<open>"guests"\<close>.
\<close>

record group_view =
  cook :: "nat option"
  guests :: "nat list"

definition decode_group :: "problem \<Rightarrow> (var \<Rightarrow> real) \<Rightarrow> nat \<Rightarrow> nat \<Rightarrow> group_view" where
  "decode_group p v c g =
     fold (\<lambda>t mygroup.
             if v (Assignment t g c) = 1 then
               (if v (Chef t g c) = 1 then mygroup\<lparr>cook := Some t\<rparr>
                else mygroup\<lparr>guests := guests mygroup @ [t]\<rparr>)
             else mygroup)
          (teams p) \<lparr>cook = None, guests = []\<rparr>"

definition coursedata :: "problem \<Rightarrow> (var \<Rightarrow> real) \<Rightarrow> group_view list list" where
  "coursedata p v = map (\<lambda>c. map (decode_group p v c) (groups p)) (courses p)"

text \<open>
  The team view: the loops over \<^verbatim>\<open>c\<close>, \<^verbatim>\<open>i\<close>, \<^verbatim>\<open>j\<close>, \<^verbatim>\<open>g\<close> visit the arcs of
  team \<^verbatim>\<open>t\<close> whose variable has value 1; each visit appends a leg to the tour and adds
  its duration, and a visit in the last course also stores the afterparty duration.
\<close>

record leg =
  approx_duration :: real
  group_no :: nat
  gang :: nat

record team_view =
  idx :: nat
  address :: string
  tour :: "leg list"
  afterparty_duration :: "real option"

definition arcs_at :: "problem \<Rightarrow> (var \<Rightarrow> real) \<Rightarrow> nat \<Rightarrow> nat \<Rightarrow> (nat \<times> nat \<times> nat \<times> nat) list" where
  "arcs_at p v t c =
     [(c, i, j, g). i \<leftarrow> teams p, j \<leftarrow> teams p, g \<leftarrow> groups p, v (Arc c i j t g) = 1]"

definition active_arcs :: "problem \<Rightarrow> (var \<Rightarrow> real) \<Rightarrow> nat \<Rightarrow> (nat \<times> nat \<times> nat \<times> nat) list" where
  "active_arcs p v t = concat (map (arcs_at p v t) (courses p))"

definition arc_course :: "nat \<times> nat \<times> nat \<times> nat \<Rightarrow> nat" where
  "arc_course = (\<lambda>(c, i, j, g). c)"

definition arc_origin :: "nat \<times> nat \<times> nat \<times> nat \<Rightarrow> nat" where
  "arc_origin = (\<lambda>(c, i, j, g). i)"

definition arc_dest :: "nat \<times> nat \<times> nat \<times> nat \<Rightarrow> nat" where
  "arc_dest = (\<lambda>(c, i, j, g). j)"

definition arc_group :: "nat \<times> nat \<times> nat \<times> nat \<Rightarrow> nat" where
  "arc_group = (\<lambda>(c, i, j, g). g)"

definition leg_of :: "problem \<Rightarrow> nat \<times> nat \<times> nat \<times> nat \<Rightarrow> leg" where
  "leg_of p = (\<lambda>(c, i, j, g).
     \<lparr>approx_duration = distance_matrix p i j c, group_no = g, gang = c\<rparr>)"

definition visit :: "problem \<Rightarrow> nat \<times> nat \<times> nat \<times> nat \<Rightarrow> team_view \<times> real \<Rightarrow> team_view \<times> real" where
  "visit p = (\<lambda>(c, i, j, g) (obj, sumdistance).
     let obj1 = obj\<lparr>tour := tour obj @ [leg_of p (c, i, j, g)]\<rparr>;
         sum1 = sumdistance + distance_matrix p i j c
     in if c = last (courses p)
        then (obj1\<lparr>afterparty_duration := Some (afterparty_dist p j)\<rparr>,
              sum1 + afterparty_dist p j)
        else (obj1, sum1))"

text \<open>What one visit adds to \<^verbatim>\<open>sumdistance\<close>.\<close>

definition arc_cost :: "problem \<Rightarrow> nat \<times> nat \<times> nat \<times> nat \<Rightarrow> real" where
  "arc_cost p = (\<lambda>(c, i, j, g).
     distance_matrix p i j c + (if c = last (courses p) then afterparty_dist p j else 0))"

definition decode_team :: "problem \<Rightarrow> (var \<Rightarrow> real) \<Rightarrow> nat \<Rightarrow> team_view \<times> real" where
  "decode_team p v t =
     fold (visit p) (active_arcs p v t)
       (\<lparr>idx = t, address = addr p t, tour = [], afterparty_duration = None\<rparr>, 0)"

definition teamdata :: "problem \<Rightarrow> (var \<Rightarrow> real) \<Rightarrow> team_view list" where
  "teamdata p v = map (\<lambda>t. fst (decode_team p v t)) (teams p)"

definition team_distances :: "problem \<Rightarrow> (var \<Rightarrow> real) \<Rightarrow> real list" where
  "team_distances p v = map (\<lambda>t. snd (decode_team p v t)) (teams p)"

record json_output =
  teams_out :: "team_view list"
  courses_out :: "group_view list list"

definition decode :: "problem \<Rightarrow> (var \<Rightarrow> real) \<Rightarrow> json_output" where
  "decode p v = \<lparr>teams_out = teamdata p v, courses_out = coursedata p v\<rparr>"

section \<open>Input assembly\<close>

text \<open>
  What the program takes from outside: Python's \<^verbatim>\<open>float\<close> on a CSV cell (\<open>None\<close>
  where it raises ValueError) and the two calls of the travel-time engine, each of
  which may raise. A geocoded point of the engine in use is a dictionary with the keys
  \<^verbatim>\<open>"pos"\<close> and \<^verbatim>\<open>"osm"\<close>.
\<close>

record osm_point =
  pos :: "real \<times> real"
  osm :: string

record externals =
  float_of :: "string \<Rightarrow> real option"
  get_geo :: "string \<Rightarrow> error + osm_point"
  route_between_points :: "osm_point \<Rightarrow> osm_point \<Rightarrow> int \<Rightarrow> error + real"

record csv_team =
  t_name :: string
  t_addr :: string
  t_tel :: string
  t_diet :: string
  t_prefs :: "real list"

definition check_headers :: "args \<Rightarrow> string list \<Rightarrow> error + unit" where
  "check_headers a headers =
     (if int (length headers) \<noteq> 4 + num_courses a \<and> \<not> ignore_preferences a
      then Inl (SystemExit 1)
      else if int (length headers) \<noteq> 4 \<and> int (length headers) \<noteq> 4 + num_courses a \<and>
              ignore_preferences a
      then Inl (SystemExit 1)
      else Inr ())"

definition cell :: "string list \<Rightarrow> nat \<Rightarrow> error + string" where
  "cell row k = (if k < length row then Inr (row ! k) else Inl IndexError)"

fun parse_prefs :: "(string \<Rightarrow> real option) \<Rightarrow> string list \<Rightarrow> nat list \<Rightarrow> error + real list" where
  "parse_prefs fl row [] = Inr []"
| "parse_prefs fl row (c # cs) =
     bind_err (cell row (4 + c)) (\<lambda>s.
       case fl s of
         None \<Rightarrow> Inl ValueError
       | Some x \<Rightarrow> bind_err (parse_prefs fl row cs) (\<lambda>xs. Inr (x # xs)))"

definition parse_row :: "args \<Rightarrow> (string \<Rightarrow> real option) \<Rightarrow> string list \<Rightarrow> error + csv_team" where
  "parse_row a fl row =
     bind_err (cell row 0) (\<lambda>n.
     bind_err (cell row 1) (\<lambda>ad.
     bind_err (cell row 2) (\<lambda>tl.
     bind_err (cell row 3) (\<lambda>dt.
       if ignore_preferences a
       then Inr \<lparr>t_name = n, t_addr = ad, t_tel = tl, t_diet = dt, t_prefs = []\<rparr>
       else bind_err (parse_prefs fl row [0..<nat (num_courses a)]) (\<lambda>ps.
              Inr \<lparr>t_name = n, t_addr = ad, t_tel = tl, t_diet = dt, t_prefs = ps\<rparr>)))))"

fun map_err :: "('a \<Rightarrow> error + 'b) \<Rightarrow> 'a list \<Rightarrow> error + 'b list" where
  "map_err f [] = Inr []"
| "map_err f (x # xs) = bind_err (f x) (\<lambda>y. bind_err (map_err f xs) (\<lambda>ys. Inr (y # ys)))"

fun fold_err :: "('a \<Rightarrow> 's \<Rightarrow> error + 's) \<Rightarrow> 'a list \<Rightarrow> 's \<Rightarrow> error + 's" where
  "fold_err f [] s = Inr s"
| "fold_err f (x # xs) s = bind_err (f x s) (fold_err f xs)"

text \<open>The file as the CSV reader yields it: the header line, then the rows.\<close>

definition read_csv :: "args \<Rightarrow> (string \<Rightarrow> real option) \<Rightarrow> string list list \<Rightarrow> error + csv_team list" where
  "read_csv a fl file =
     (case file of
        [] \<Rightarrow> Inl TypeError
      | headers # rows \<Rightarrow>
          bind_err (check_headers a headers) (\<lambda>_. map_err (parse_row a fl) rows))"

text \<open>
  The divisibility check; \<^verbatim>\<open>len(data) % len(courses)\<close> raises when there is no
  course.
\<close>

definition check_divisible :: "args \<Rightarrow> nat \<Rightarrow> error + unit" where
  "check_divisible a n =
     (if nat (num_courses a) = 0 then Inl ZeroDivisionError
      else if n mod nat (num_courses a) \<noteq> 0 then Inl (SystemExit 1)
      else Inr ())"

definition datetimes :: "args \<Rightarrow> nat \<Rightarrow> error + int" where
  "datetimes a c =
     (if c = 0 then Inr (datetime_1 a)
      else if c = 1 then Inr (case datetime_2 a of None \<Rightarrow> datetime_1 a | Some d \<Rightarrow> d)
      else if c = 2 then Inr (case datetime_3 a of None \<Rightarrow> datetime_1 a | Some d \<Rightarrow> d)
      else Inl KeyError)"

definition pairs :: "args \<Rightarrow> nat \<Rightarrow> (nat \<times> nat) list" where
  "pairs a n =
     (if asymetric_distances a then [(i, j). i \<leftarrow> [0..<n], j \<leftarrow> [0..<n], i \<noteq> j]
      else combinations2 [0..<n])"

text \<open>
  The handler of the distance loop catches every \<^verbatim>\<open>Exception\<close> (not SystemExit) and
  prints before it re-raises; its first printed value is \<^verbatim>\<open>a["geo"].name\<close>, an
  attribute that a dictionary does not have, so the handler itself raises
  AttributeError and the re-raise is never reached.
\<close>

definition route_handler :: "error \<Rightarrow> error" where
  "route_handler ex = (case ex of SystemExit k \<Rightarrow> SystemExit k | _ \<Rightarrow> AttributeError)"

type_synonym matrix = "(nat \<times> nat \<times> nat) \<rightharpoonup> real"

definition route_step ::
  "args \<Rightarrow> externals \<Rightarrow> osm_point list \<Rightarrow> (nat \<times> nat) \<times> nat \<Rightarrow> matrix \<Rightarrow> error + matrix" where
  "route_step a ext geo = (\<lambda>((i, j), c) dm.
     case bind_err (datetimes a c) (route_between_points ext (geo ! i) (geo ! j)) of
       Inl ex \<Rightarrow> Inl (route_handler ex)
     | Inr route_time \<Rightarrow>
         Inr (if asymetric_distances a then dm((i, j, c) \<mapsto> route_time)
              else dm((i, j, c) \<mapsto> route_time, (j, i, c) \<mapsto> route_time)))"

definition afterparty_step ::
  "args \<Rightarrow> externals \<Rightarrow> osm_point list \<Rightarrow> osm_point option \<Rightarrow> nat \<Rightarrow>
   matrix \<times> (nat \<rightharpoonup> real) \<Rightarrow> error + matrix \<times> (nat \<rightharpoonup> real)" where
  "afterparty_step a ext geo afterparty_geo t = (\<lambda>(dm, ap).
     let dm1 = fold (\<lambda>c m. m((t, t, c) \<mapsto> 0)) [0..<nat (num_courses a)] dm
     in case afterparty_geo of
          None \<Rightarrow> Inr (dm1, ap(t \<mapsto> 0))
        | Some g \<Rightarrow>
            bind_err (route_between_points ext (geo ! t) g
                        (case datetime_afterparty a of None \<Rightarrow> datetime_1 a | Some d \<Rightarrow> d))
              (\<lambda>dist. Inr (dm1, ap(t \<mapsto> dist))))"

record assembled =
  a_data :: "csv_team list"
  a_matrix :: matrix
  a_afterparty :: "nat \<rightharpoonup> real"

definition assemble :: "args \<Rightarrow> externals \<Rightarrow> string list list \<Rightarrow> error + assembled" where
  "assemble a ext file =
     bind_err (read_csv a (float_of ext) file) (\<lambda>data.
     bind_err (check_divisible a (length data)) (\<lambda>_.
     bind_err (map_err (get_geo ext) (map t_addr data)) (\<lambda>geo.
     bind_err (case afterparty a of
                 None \<Rightarrow> Inr None
               | Some ad \<Rightarrow> bind_err (get_geo ext ad) (\<lambda>g. Inr (Some g))) (\<lambda>afterparty_geo.
     bind_err (fold_err (route_step a ext geo)
                 [(ab, c). ab \<leftarrow> pairs a (length data), c \<leftarrow> [0..<nat (num_courses a)]]
                 Map.empty) (\<lambda>dm.
     bind_err (fold_err (afterparty_step a ext geo afterparty_geo) [0..<length data]
                 (dm, Map.empty)) (\<lambda>(dm1, ap).
       Inr \<lparr>a_data = data, a_matrix = dm1, a_afterparty = ap\<rparr>))))))"

text \<open>
  The builder and the decoder read the dictionaries by key; reading a missing key
  raises KeyError.
\<close>

definition keys_present :: "args \<Rightarrow> assembled \<Rightarrow> bool" where
  "keys_present a asm =
     (\<forall>i \<in> set [0..<length (a_data asm)].
        a_afterparty asm i \<noteq> None \<and>
        (\<forall>j \<in> set [0..<length (a_data asm)]. \<forall>c \<in> set [0..<nat (num_courses a)].
            a_matrix asm (i, j, c) \<noteq> None))"

definition to_problem :: "args \<Rightarrow> assembled \<Rightarrow> error + problem" where
  "to_problem a asm =
     (if keys_present a asm
      then Inr \<lparr>opts = a, n_teams = length (a_data asm),
                addr = (\<lambda>t. t_addr (a_data asm ! t)),
                pref = (\<lambda>t c. t_prefs (a_data asm ! t) ! c),
                distance_matrix = (\<lambda>i j c. the (a_matrix asm (i, j, c))),
                afterparty_dist = (\<lambda>t. the (a_afterparty asm t))\<rparr>
      else Inl KeyError)"

text \<open>
  The whole run, with the solver as a function from the model to the values of its
  variables.
\<close>

definition run ::
  "args \<Rightarrow> externals \<Rightarrow> (model \<Rightarrow> var \<Rightarrow> real) \<Rightarrow> string list list \<Rightarrow> error + json_output" where
  "run a ext solve file =
     bind_err (assemble a ext file) (\<lambda>asm.
     bind_err (to_problem a asm) (\<lambda>p.
     bind_err (build_model p) (\<lambda>m. Inr (decode p (solve m)))))"


section \<open>The preference term as the specification words it\<close>




section \<open>Switching preference weighting\<close>

text \<open>The same input and options, with \<^verbatim>\<open>--ignore-preferences\<close> set or not.\<close>

definition with_ignore_preferences :: "bool \<Rightarrow> problem \<Rightarrow> problem" where
  "with_ignore_preferences b p = p\<lparr>opts := (opts p)\<lparr>ignore_preferences := b\<rparr>\<rparr>"

section \<open>Worked instances\<close>

text \<open>
  Four teams, two courses, every distance between two teams 10 minutes, the afterparty
  5 minutes from everybody; team 0 must not host the second course, and teams 0 and 1
  are given to \<^verbatim>\<open>--cook-incompatible\<close>. The plan: first course, teams 0 and 1 at
  team 0's and teams 2 and 3 at team 2's; second course, teams 0 and 3 at team 3's and
  teams 1 and 2 at team 1's.
\<close>

definition p4 :: problem where
  "p4 = \<lparr>opts = (default_args 0)\<lparr>num_courses := 2, cook_incompatible := [0, 1],
                                   afterparty := Some ''Club''\<rparr>,
          n_teams = 4,
          addr = (\<lambda>t. [char_of t]),
          pref = (\<lambda>t c. if t = 0 \<and> c = 1 then - 1000 else if c = t mod 2 then 1 else 2),
          distance_matrix = (\<lambda>i j c. if i = j then 0 else 10),
          afterparty_dist = (\<lambda>t. 5)\<rparr>"

definition group4 :: "nat \<Rightarrow> nat \<Rightarrow> nat" where
  "group4 t c = (if c = 0 then t div 2 else if t = 0 \<or> t = 3 then 0 else 1)"

definition chef4 :: "nat \<Rightarrow> nat \<Rightarrow> nat" where
  "chef4 g c = (if c = 0 then 2 * g else if g = 0 then 3 else 1)"

fun v4 :: "var \<Rightarrow> real" where
  "v4 (Assignment t g c) = (if g = group4 t c then 1 else 0)"
| "v4 (Chef t g c) = (if g = group4 t c \<and> t = chef4 g c then 1 else 0)"
| "v4 (Arc c i j t g) =
     (if g = group4 t c \<and> j = chef4 g c \<and> i = (if c = 0 then t else chef4 (group4 t 0) 0)
      then 1 else 0)"
| "v4 MaxDuration = 25"
| "v4 (LargeTeam t) = 0"

text \<open>
  Two teams and two courses with \<^verbatim>\<open>--can-meet-again\<close>; team 0 must not host the
  first course. In the plan team 0 hosts the first course and team 1 the second.
\<close>

definition p2 :: problem where
  "p2 = \<lparr>opts = (default_args 0)\<lparr>num_courses := 2, can_meet_again := True\<rparr>,
          n_teams = 2,
          addr = (\<lambda>t. [char_of t]),
          pref = (\<lambda>t c. if t = 0 \<and> c = 0 then - 1000 else 1),
          distance_matrix = (\<lambda>i j c. if i = j then 0 else 10),
          afterparty_dist = (\<lambda>t. 0)\<rparr>"

fun v2 :: "var \<Rightarrow> real" where
  "v2 (Assignment t g c) = 1"
| "v2 (Chef t g c) = (if t = c then 1 else 0)"
| "v2 (Arc c i j t g) = (if j = c \<and> i = (if c = 0 then t else 0) then 1 else 0)"
| "v2 MaxDuration = 20"
| "v2 (LargeTeam t) = 0"


text \<open>
  An input file with its header and two rows (a third row in \<open>file3\<close>), read with two
  courses and preferences ignored; an engine that geocodes every address and answers
  10 minutes for every route, and one whose route requests all fail.
\<close>

definition example_args :: args where
  "example_args = (default_args 0)\<lparr>num_courses := 2, ignore_preferences := True\<rparr>"

definition example_ext :: externals where
  "example_ext = \<lparr>float_of = (\<lambda>s. None),
                   get_geo = (\<lambda>s. Inr \<lparr>pos = (0, 0), osm = s\<rparr>),
                   route_between_points = (\<lambda>a b t. Inr 10)\<rparr>"

definition failing_ext :: externals where
  "failing_ext = example_ext\<lparr>route_between_points := (\<lambda>a b t. Inl ConnectionError)\<rparr>"

definition example_header :: "string list" where
  "example_header = [''name'', ''addr'', ''tel'', ''diet'']"

definition file2 :: "string list list" where
  "file2 = [example_header, [''A'', ''Street 1'', ''1'', ''''], [''B'', ''Street 2'', ''2'', '''']]"

definition file3 :: "string list list" where
  "file3 = file2 @ [[''C'', ''Street 3'', ''3'', '''']]"

definition no_solver :: "model \<Rightarrow> var \<Rightarrow> real" where
  "no_solver m x = 0"

text \<open>
  Six teams and three courses, every distance between two teams 10 minutes, no
  afterparty, preferences ignored, teams meet only once, six different addresses, and
  the maximal duration as the only term of the objective.
\<close>

definition p6 :: problem where
  "p6 = \<lparr>opts = (default_args 0)\<lparr>ignore_preferences := True, ignore_avg_dist := True\<rparr>,
          n_teams = 6,
          addr = (\<lambda>t. [char_of t]),
          pref = (\<lambda>t c. 0),
          distance_matrix = (\<lambda>i j c. if i = j then 0 else 10),
          afterparty_dist = (\<lambda>t. 0)\<rparr>"

text \<open>
  The same distances with three teams, three courses and \<^verbatim>\<open>--can-meet-again\<close>: the three
  teams eat together in every course, team \<open>c\<close> hosting course \<open>c\<close>.
\<close>

definition p3 :: problem where
  "p3 = \<lparr>opts = (default_args 0)\<lparr>ignore_preferences := True, ignore_avg_dist := True,
                                   can_meet_again := True\<rparr>,
          n_teams = 3,
          addr = (\<lambda>t. [char_of t]),
          pref = (\<lambda>t c. 0),
          distance_matrix = (\<lambda>i j c. if i = j then 0 else 10),
          afterparty_dist = (\<lambda>t. 0)\<rparr>"

fun v3 :: "var \<Rightarrow> real" where
  "v3 (Assignment t g c) = 1"
| "v3 (Chef t g c) = (if t = c then 1 else 0)"
| "v3 (Arc c i j t g) = (if j = c \<and> i = (if c = 0 then t else c - 1) then 1 else 0)"
| "v3 MaxDuration = 30"
| "v3 (LargeTeam t) = 0"

section \<open>Evaluating expressions and reading constraints off the model\<close>


lemma terms_value_Nil [simp]: "terms_value v [] = 0"
  by (simp add: terms_value_def)

lemma terms_value_Cons [simp]: "terms_value v ((a, x) # ts) = a * v x + terms_value v ts"
  by (simp add: terms_value_def)

lemma terms_value_append [simp]:
  "terms_value v (xs @ ys) = terms_value v xs + terms_value v ys"
  by (simp add: terms_value_def)

lemma terms_value_concat:
  "terms_value v (concat xss) = (\<Sum>xs\<leftarrow>xss. terms_value v xs)"
  by (induction xss) simp_all

lemma terms_value_concat_map [simp]:
  "terms_value v (concat (map f xs)) = (\<Sum>x\<leftarrow>xs. terms_value v (f x))"
  by (simp add: terms_value_concat comp_def)

lemma terms_value_map [simp]:
  "terms_value v (map (\<lambda>x. (a x, f x)) xs) = (\<Sum>x\<leftarrow>xs. a x * v (f x))"
  by (induction xs) simp_all

lemma sum_list_upt_sum [simp]: "sum_list (map f [0..<n]) = sum f {..<n}"
  by (simp add: interv_sum_list_conv_sum_set_nat atLeast0LessThan)

lemma lp_value_lpSum [simp]: "lp_value v (lpSum ts) = terms_value v ts"
  by (simp add: lp_value_def lpSum_def)

lemma lp_value_lpVar [simp]: "lp_value v (lpVar x) = v x"
  by (simp add: lp_value_def lpVar_def)

lemma lp_value_lpConst [simp]: "lp_value v (lpConst k) = k"
  by (simp add: lp_value_def lpConst_def)

lemma lp_value_lpAdd [simp]: "lp_value v (lpAdd a b) = lp_value v a + lp_value v b"
  by (simp add: lp_value_def lpAdd_def)

lemma terms_value_scale:
  "terms_value v (map (\<lambda>(b, x). (a * b, x)) ts) = a * terms_value v ts"
  by (induction ts) (auto simp: algebra_simps)

lemma lp_value_lpScale [simp]: "lp_value v (lpScale a e) = a * lp_value v e"
  by (simp add: lp_value_def lpScale_def terms_value_scale distrib_left)

lemma lp_value_lpSub [simp]: "lp_value v (lpSub a b) = lp_value v a - lp_value v b"
  by (simp add: lpSub_def)

lemma length_courses [simp]: "length (courses p) = n_courses p"
  by (simp add: courses_def)

lemma length_teams [simp]: "length (teams p) = n_teams p"
  by (simp add: teams_def)

lemma set_courses [simp]: "set (courses p) = {..<n_courses p}"
  by (auto simp: courses_def)

lemma set_teams [simp]: "set (teams p) = {..<n_teams p}"
  by (auto simp: teams_def)

lemma set_groups [simp]: "set (groups p) = {..<n_groups p}"
  by (auto simp: groups_def)

lemma feasible_forD:
  assumes "feasible_for p v"
  shows "0 < n_courses p" and "0 < n_teams p" and "incompatible_keys_ok p"
    and "\<And>x. x \<in> set (binary_vars p) \<Longrightarrow> v x = 0 \<or> v x = 1"
    and "0 \<le> v MaxDuration"
    and "\<And>k. k \<in> set (all_constraints p) \<Longrightarrow> sat v k"
  using assms
  by (auto simp: feasible_for_def build_model_def bind_err_def objective_def feasible_def
      courses_def split: if_splits sum.splits)

lemma binary_Assignment:
  assumes "feasible_for p v" "t < n_teams p" "g < n_groups p" "c < n_courses p"
  shows "v (Assignment t g c) = 0 \<or> v (Assignment t g c) = 1"
  by (rule feasible_forD(4)[OF assms(1)]) (use assms in \<open>simp add: binary_vars_def image_iff\<close>)

lemma binary_Chef:
  assumes "feasible_for p v" "t < n_teams p" "g < n_groups p" "c < n_courses p"
  shows "v (Chef t g c) = 0 \<or> v (Chef t g c) = 1"
  by (rule feasible_forD(4)[OF assms(1)]) (use assms in \<open>simp add: binary_vars_def image_iff\<close>)

lemma binary_Arc:
  assumes "feasible_for p v" "c < n_courses p" "i < n_teams p" "j < n_teams p"
    "t < n_teams p" "g < n_groups p"
  shows "v (Arc c i j t g) = 0 \<or> v (Arc c i j t g) = 1"
  by (rule feasible_forD(4)[OF assms(1)]) (use assms in \<open>simp add: binary_vars_def image_iff\<close>)



lemma hd_courses: "0 < n_courses p \<Longrightarrow> hd (courses p) = 0"
  by (simp add: courses_def hd_upt)

lemma last_courses: "0 < n_courses p \<Longrightarrow> last (courses p) = n_courses p - 1"
  by (simp add: courses_def last_upt)

lemma family_subset:
  "set (assign_once p) \<subseteq> set (all_constraints p)"
  "set (group_size p) \<subseteq> set (all_constraints p)"
  "set (meet_once p) \<subseteq> set (all_constraints p)"
  "set (no_chef p) \<subseteq> set (all_constraints p)"
  "set (one_chef p) \<subseteq> set (all_constraints p)"
  "set (chef_once p) \<subseteq> set (all_constraints p)"
  "set (chef_if_assigned p) \<subseteq> set (all_constraints p)"
  "set (arc_if_assigned p) \<subseteq> set (all_constraints p)"
  "set (start_at_self p) \<subseteq> set (all_constraints p)"
  "set (only_to_chef p) \<subseteq> set (all_constraints p)"
  "set (leave_if_entering p) \<subseteq> set (all_constraints p)"
  "set (max_dist p) \<subseteq> set (all_constraints p)"
  "set (min_time p) \<subseteq> set (all_constraints p)"
  "set (no_stay p) \<subseteq> set (all_constraints p)"
  "set (incompatible p) \<subseteq> set (all_constraints p)"
  "set (large_team p) \<subseteq> set (all_constraints p)"
  "set (same_address p) \<subseteq> set (all_constraints p)"
  by (auto simp: all_constraints_def)

lemma feasible_for_sat:
  assumes "feasible_for p v" "k \<in> S" "S \<subseteq> set (all_constraints p)"
  shows "sat v k"
  using feasible_forD(6)[OF assms(1)] assms(2,3) by blast

lemma assign_onceD:
  assumes "feasible_for p v" "t < n_teams p" "c < n_courses p"
  shows "(\<Sum>g<n_groups p. v (Assignment t g c)) = 1"
proof -
  have "assign_once_constr p t c \<in> set (assign_once p)"
    using assms by (force simp: assign_once_def)
  from feasible_for_sat[OF assms(1) this family_subset(1)] show ?thesis
    by (simp add: assign_once_constr_def groups_def)
qed

lemma group_sizeD:
  assumes "feasible_for p v" "g < n_groups p" "c < n_courses p"
  shows "(\<Sum>t<n_teams p. v (Assignment t g c)) = real (n_courses p)"
proof -
  have "group_size_constr p g c \<in> set (group_size p)"
    using assms by (force simp: group_size_def)
  from feasible_for_sat[OF assms(1) this family_subset(2)] show ?thesis
    by (simp add: group_size_constr_def teams_def)
qed

lemma one_chefD:
  assumes "feasible_for p v" "g < n_groups p" "c < n_courses p"
  shows "(\<Sum>t<n_teams p. v (Chef t g c)) = 1"
proof -
  have "one_chef_constr p g c \<in> set (one_chef p)"
    using assms by (force simp: one_chef_def)
  from feasible_for_sat[OF assms(1) this family_subset(5)] show ?thesis
    by (simp add: one_chef_constr_def teams_def)
qed

lemma chef_onceD:
  assumes "feasible_for p v" "t < n_teams p"
  shows "(\<Sum>g<n_groups p. \<Sum>c<n_courses p. v (Chef t g c)) = 1"
proof -
  have "chef_once_constr p t \<in> set (chef_once p)"
    using assms by (force simp: chef_once_def)
  from feasible_for_sat[OF assms(1) this family_subset(6)] show ?thesis
    by (simp add: chef_once_constr_def groups_def courses_def)
qed

lemma chef_if_assignedD:
  assumes "feasible_for p v" "t < n_teams p" "g < n_groups p" "c < n_courses p"
  shows "v (Chef t g c) \<le> v (Assignment t g c)"
proof -
  have "chef_if_assigned_constr t g c \<in> set (chef_if_assigned p)"
    using assms by (force simp: chef_if_assigned_def)
  from feasible_for_sat[OF assms(1) this family_subset(7)] show ?thesis
    by (simp add: chef_if_assigned_constr_def)
qed

lemma arc_if_assignedD:
  assumes "feasible_for p v" "t < n_teams p" "g < n_groups p" "c < n_courses p"
  shows "(\<Sum>i<n_teams p. \<Sum>j<n_teams p. v (Arc c i j t g)) = v (Assignment t g c)"
proof -
  have "arc_if_assigned_constr p t g c \<in> set (arc_if_assigned p)"
    using assms by (force simp: arc_if_assigned_def)
  from feasible_for_sat[OF assms(1) this family_subset(8)] show ?thesis
    by (simp add: arc_if_assigned_constr_def teams_def)
qed

lemma start_at_selfD:
  assumes "feasible_for p v" "t < n_teams p" "g < n_groups p"
  shows "(\<Sum>j<n_teams p. v (Arc 0 t j t g)) = v (Assignment t g 0)"
proof -
  have "start_at_self_constr p t g \<in> set (start_at_self p)"
    using assms by (force simp: start_at_self_def)
  from feasible_for_sat[OF assms(1) this family_subset(9)] show ?thesis
    by (simp add: start_at_self_constr_def teams_def hd_courses[OF feasible_forD(1)[OF assms(1)]])
qed

lemma only_to_chefD:
  assumes "feasible_for p v" "c < n_courses p" "i < n_teams p" "j < n_teams p"
    "t < n_teams p" "g < n_groups p"
  shows "v (Arc c i j t g) \<le> v (Chef j g c)"
proof -
  have "only_to_chef_constr c i j t g \<in> set (only_to_chef p)"
    using assms by (force simp: only_to_chef_def)
  from feasible_for_sat[OF assms(1) this family_subset(10)] show ?thesis
    by (simp add: only_to_chef_constr_def)
qed

lemma sum_list_if_single:
  "(\<Sum>x\<leftarrow>xs. terms_value v (if P x then [(1, f x)] else [])) =
   (\<Sum>x\<leftarrow>xs. if P x then v (f x) else 0)"
  by (induction xs) simp_all

lemma leave_if_enteringD:
  assumes "feasible_for p v" "0 < c" "c < n_courses p" "t < n_teams p" "i < n_teams p"
  shows "(\<Sum>j<n_teams p. \<Sum>g<n_groups p. if j \<noteq> i then v (Arc c i j t g) else 0) =
         (\<Sum>r<n_teams p. \<Sum>g<n_groups p. v (Arc (c - 1) r i t g))"
proof -
  have "leave_if_entering_constr p c t i \<in> set (leave_if_entering p)"
    using assms by (force simp: leave_if_entering_def)
  from feasible_for_sat[OF assms(1) this family_subset(11)] show ?thesis
    by (simp add: leave_if_entering_constr_def teams_def groups_def sum_list_if_single)
qed

lemma min_timeD:
  assumes "feasible_for p v" "t < n_teams p"
  shows "real_of_int (min_travel (opts p)) \<le> terms_value v (min_time_terms p t)"
proof -
  have "min_time_constr p t \<in> set (min_time p)"
    using assms by (force simp: min_time_def)
  from feasible_for_sat[OF assms(1) this family_subset(13)] show ?thesis
    by (simp add: min_time_constr_def)
qed


lemma meet_once_mem:
  assumes "\<not> can_meet_again (opts p)"
    "c1 < c2" "c2 < n_courses p" "g1 < n_groups p" "g2 < n_groups p"
    "t1 < t2" "t2 < n_teams p"
  shows "meet_constr c1 c2 g1 g2 t1 t2 \<in> set (meet_once p)"
  using assms by (force simp: meet_once_def)

lemma meet_onceD:
  assumes "feasible_for p v" "\<not> can_meet_again (opts p)"
    "c1 < c2" "c2 < n_courses p" "g1 < n_groups p" "g2 < n_groups p"
    "t1 < t2" "t2 < n_teams p"
  shows "v (Assignment t1 g1 c1) + v (Assignment t2 g1 c1) +
         v (Assignment t1 g2 c2) + v (Assignment t2 g2 c2) \<le> 3"
proof -
  from feasible_for_sat[OF assms(1) meet_once_mem[OF assms(2-)] family_subset(3)] show ?thesis
    by (simp add: meet_constr_def)
qed



lemma binary_sum_one:
  fixes f :: "'a \<Rightarrow> real"
  assumes "finite S" "\<And>x. x \<in> S \<Longrightarrow> f x = 0 \<or> f x = 1" "sum f S = 1"
  shows "\<exists>x. x \<in> S \<and> f x = 1 \<and> (\<forall>y. y \<in> S \<and> f y = 1 \<longrightarrow> y = x)"
proof -
  have "sum f S = (\<Sum>x\<in>S. if f x = 1 then 1 else 0)"
    by (rule sum.cong) (use assms(2) in auto)
  also have "\<dots> = real (card (S \<inter> {x. f x = 1}))"
    using assms(1) by (simp add: sum.If_cases)
  finally have "card (S \<inter> {x. f x = 1}) = 1"
    using assms(3) by simp
  then obtain x where x: "S \<inter> {x. f x = 1} = {x}"
    by (auto simp: card_1_singleton_iff)
  then have "x \<in> S" "f x = 1" "\<And>y. y \<in> S \<Longrightarrow> f y = 1 \<Longrightarrow> y = x"
    by auto
  then show ?thesis by blast
qed

lemma binary_sum_count:
  fixes f :: "'a \<Rightarrow> real"
  assumes "finite S" "\<And>x. x \<in> S \<Longrightarrow> f x = 0 \<or> f x = 1"
  shows "sum f S = real (card {x \<in> S. f x = 1})"
proof -
  have "sum f S = (\<Sum>x\<in>S. if f x = 1 then 1 else 0)"
    by (rule sum.cong) (use assms(2) in auto)
  also have "\<dots> = real (card (S \<inter> {x. f x = 1}))"
    using assms(1) by (simp add: sum.If_cases)
  also have "S \<inter> {x. f x = 1} = {x \<in> S. f x = 1}" by auto
  finally show ?thesis .
qed

lemma length_if_single [simp]: "length (if P then [x] else []) = (if P then 1 else 0)"
  by simp

lemma length_concat_map: "length (concat (map f xs)) = (\<Sum>x\<leftarrow>xs. length (f x))"
  by (simp add: length_concat comp_def)

lemma length_arcs_at:
  "length (arcs_at p v t c) =
     (\<Sum>i<n_teams p. \<Sum>j<n_teams p. \<Sum>g<n_groups p. if v (Arc c i j t g) = 1 then 1 else 0)"
  by (simp add: arcs_at_def length_concat_map teams_def groups_def)

lemma set_arcs_at:
  "set (arcs_at p v t c) =
     {(c, i, j, g) | i j g. i < n_teams p \<and> j < n_teams p \<and> g < n_groups p \<and> v (Arc c i j t g) = 1}"
  by (auto simp: arcs_at_def)

lemma arc_sum_one:
  assumes "feasible_for p v" "t < n_teams p" "c < n_courses p"
  shows "(\<Sum>i<n_teams p. \<Sum>j<n_teams p. \<Sum>g<n_groups p. v (Arc c i j t g)) = 1"
proof -
  have "(\<Sum>i<n_teams p. \<Sum>j<n_teams p. \<Sum>g<n_groups p. v (Arc c i j t g)) =
        (\<Sum>g<n_groups p. \<Sum>i<n_teams p. \<Sum>j<n_teams p. v (Arc c i j t g))"
    (is "_ = ?R")
  proof -
    have "(\<Sum>i<n_teams p. \<Sum>j<n_teams p. \<Sum>g<n_groups p. v (Arc c i j t g)) =
          (\<Sum>i<n_teams p. \<Sum>g<n_groups p. \<Sum>j<n_teams p. v (Arc c i j t g))"
      by (rule sum.cong[OF refl]) (rule sum.swap)
    also have "\<dots> = ?R" by (rule sum.swap)
    finally show ?thesis .
  qed
  also have "\<dots> = (\<Sum>g<n_groups p. v (Assignment t g c))"
    by (rule sum.cong[OF refl]) (use assms in \<open>simp add: arc_if_assignedD\<close>)
  also have "\<dots> = 1"
    using assms by (rule assign_onceD)
  finally show ?thesis .
qed

lemma arcs_at_single:
  assumes "feasible_for p v" "t < n_teams p" "c < n_courses p"
  shows "\<exists>i j g. arcs_at p v t c = [(c, i, j, g)] \<and> i < n_teams p \<and> j < n_teams p \<and>
           g < n_groups p \<and> v (Arc c i j t g) = 1"
proof -
  have "real (length (arcs_at p v t c)) =
        (\<Sum>i<n_teams p. \<Sum>j<n_teams p. \<Sum>g<n_groups p. v (Arc c i j t g))"
    unfolding length_arcs_at of_nat_sum
    by (intro sum.cong refl) (use binary_Arc[OF assms(1) assms(3) _ _ assms(2)] in force)
  also have "\<dots> = 1" using assms by (rule arc_sum_one)
  finally have "length (arcs_at p v t c) = 1" by simp
  then obtain x where x: "arcs_at p v t c = [x]"
    by (cases "arcs_at p v t c") auto
  then have "x \<in> set (arcs_at p v t c)" by simp
  then show ?thesis unfolding set_arcs_at using x by auto
qed



lemma arc_nonneg:
  assumes "feasible_for p v" "c < n_courses p" "i < n_teams p" "j < n_teams p"
    "t < n_teams p" "g < n_groups p"
  shows "0 \<le> v (Arc c i j t g)"
  using binary_Arc[OF assms] by auto

lemma arcs_chain:
  assumes f: "feasible_for p v" and t: "t < n_teams p" and c: "0 < c" "c < n_courses p"
    and prev: "arcs_at p v t (c - 1) = [(c - 1, i, j, g)]"
    and cur: "arcs_at p v t c = [(c, i', j', g')]"
  shows "i' = j \<and> j' \<noteq> i'"
proof -
  have "(c - 1, i, j, g) \<in> set (arcs_at p v t (c - 1))" using prev by simp
  then have ij: "i < n_teams p" "j < n_teams p" "g < n_groups p" "v (Arc (c - 1) i j t g) = 1"
    by (auto simp: set_arcs_at)
  have c1: "c - 1 < n_courses p" using c by simp
  let ?in = "\<lambda>r g. v (Arc (c - 1) r j t g)"
  let ?out = "\<lambda>j' g. if j' \<noteq> j then v (Arc c j j' t g) else 0"
  have "?in i g \<le> (\<Sum>g<n_groups p. ?in i g)"
    by (rule member_le_sum) (use ij f t c1 in \<open>auto intro: arc_nonneg\<close>)
  also have "\<dots> \<le> (\<Sum>r<n_teams p. \<Sum>g<n_groups p. ?in r g)"
    by (rule member_le_sum[of i _ "\<lambda>r. \<Sum>g<n_groups p. ?in r g"])
       (use ij f t c1 in \<open>auto intro!: sum_nonneg arc_nonneg\<close>)
  also have "\<dots> = (\<Sum>j'<n_teams p. \<Sum>g<n_groups p. ?out j' g)"
    using leave_if_enteringD[OF f c t ij(2)] by simp
  finally have pos: "1 \<le> (\<Sum>j'<n_teams p. \<Sum>g<n_groups p. ?out j' g)"
    using ij(4) by simp
  have "\<exists>j'<n_teams p. \<exists>g<n_groups p. ?out j' g \<noteq> 0"
  proof (rule ccontr)
    assume "\<not> ?thesis"
    then have "(\<Sum>j'<n_teams p. \<Sum>g<n_groups p. ?out j' g) = 0"
      by (intro sum.neutral ballI) auto
    with pos show False by simp
  qed
  then obtain j2 g2 where o: "j2 < n_teams p" "g2 < n_groups p" "j2 \<noteq> j" "v (Arc c j j2 t g2) \<noteq> 0"
    by (auto split: if_splits)
  then have "v (Arc c j j2 t g2) = 1"
    using binary_Arc[OF f c(2) ij(2) o(1) t o(2)] by auto
  then have "(c, j, j2, g2) \<in> set (arcs_at p v t c)"
    using o ij by (auto simp: set_arcs_at)
  then show ?thesis using cur o(3) by auto
qed

lemma arcs_start:
  assumes f: "feasible_for p v" and t: "t < n_teams p"
    and cur: "arcs_at p v t 0 = [(0, i, j, g)]"
  shows "i = t"
proof -
  have K: "0 < n_courses p" using f by (rule feasible_forD)
  have "\<exists>g<n_groups p. v (Assignment t g 0) \<noteq> 0"
  proof (rule ccontr)
    assume "\<not> ?thesis"
    then have "(\<Sum>g<n_groups p. v (Assignment t g 0)) = 0"
      by (intro sum.neutral ballI) auto
    with assign_onceD[OF f t K] show False by simp
  qed
  then obtain g0 where g0: "g0 < n_groups p" "v (Assignment t g0 0) \<noteq> 0" by auto
  then have a1: "v (Assignment t g0 0) = 1"
    using binary_Assignment[OF f t g0(1) K] by auto
  have "\<exists>j<n_teams p. v (Arc 0 t j t g0) \<noteq> 0"
  proof (rule ccontr)
    assume "\<not> ?thesis"
    then have "(\<Sum>j<n_teams p. v (Arc 0 t j t g0)) = 0"
      by (intro sum.neutral ballI) auto
    with start_at_selfD[OF f t g0(1)] a1 show False by simp
  qed
  then obtain j0 where j0: "j0 < n_teams p" "v (Arc 0 t j0 t g0) \<noteq> 0" by auto
  then have "v (Arc 0 t j0 t g0) = 1"
    using binary_Arc[OF f K t j0(1) t g0(1)] by auto
  then have "(0, t, j0, g0) \<in> set (arcs_at p v t 0)"
    using j0 g0 t by (auto simp: set_arcs_at)
  then show ?thesis using cur by auto
qed

lemma arc_to_chef:
  assumes f: "feasible_for p v" and t: "t < n_teams p" and c: "c < n_courses p"
    and cur: "arcs_at p v t c = [(c, i, j, g)]"
  shows "v (Chef j g c) = 1 \<and> v (Assignment t g c) = 1"
proof -
  have "(c, i, j, g) \<in> set (arcs_at p v t c)" using cur by simp
  then have ij: "i < n_teams p" "j < n_teams p" "g < n_groups p" "v (Arc c i j t g) = 1"
    by (auto simp: set_arcs_at)
  have "1 \<le> v (Chef j g c)"
    using only_to_chefD[OF f c ij(1,2) t ij(3)] ij(4) by simp
  then have ch: "v (Chef j g c) = 1"
    using binary_Chef[OF f ij(2,3) c] by auto
  have "v (Arc c i j t g) \<le> (\<Sum>j<n_teams p. v (Arc c i j t g))"
    by (rule member_le_sum) (use ij f t c in \<open>auto intro: arc_nonneg\<close>)
  also have "\<dots> \<le> (\<Sum>i<n_teams p. \<Sum>j<n_teams p. v (Arc c i j t g))"
    by (rule member_le_sum[of i _ "\<lambda>i. \<Sum>j<n_teams p. v (Arc c i j t g)"])
       (use ij f t c in \<open>auto intro!: sum_nonneg arc_nonneg\<close>)
  also have "\<dots> = v (Assignment t g c)"
    by (rule arc_if_assignedD[OF f t ij(3) c])
  finally have "v (Assignment t g c) = 1"
    using ij(4) binary_Assignment[OF f t ij(3) c] by auto
  with ch show ?thesis by simp
qed

lemma concat_singletons:
  assumes "\<And>c. c < K \<Longrightarrow> length (f c) = 1"
  shows "concat (map f [0..<K]) = map (\<lambda>c. hd (f c)) [0..<K]"
  using assms
proof (induction K)
  case 0
  show ?case by simp
next
  case (Suc K)
  have "length (f K) = 1" using Suc.prems by simp
  then have "f K = [hd (f K)]" by (cases "f K") auto
  with Suc show ?case by simp
qed

lemma active_arcs_eq:
  assumes "feasible_for p v" "t < n_teams p"
  shows "active_arcs p v t = map (\<lambda>c. hd (arcs_at p v t c)) [0..<n_courses p]"
  unfolding active_arcs_def courses_def
  by (rule concat_singletons) (use arcs_at_single[OF assms] in fastforce)

lemma active_arcs_nth:
  assumes "feasible_for p v" "t < n_teams p" "c < n_courses p"
  shows "arcs_at p v t c = [active_arcs p v t ! c]"
proof -
  obtain i j g where "arcs_at p v t c = [(c, i, j, g)]"
    using arcs_at_single[OF assms] by blast
  then show ?thesis
    using assms(3) by (simp add: active_arcs_eq[OF assms(1,2)])
qed



lemma fold_visit_tour:
  "tour (fst (fold (visit p) xs st)) = tour (fst st) @ map (leg_of p) xs"
  by (induction xs arbitrary: st) (auto simp: visit_def Let_def split: prod.splits)

lemma fold_visit_sum:
  "snd (fold (visit p) xs st) = snd st + (\<Sum>a\<leftarrow>xs. arc_cost p a)"
  by (induction xs arbitrary: st) (auto simp: visit_def arc_cost_def Let_def split: prod.splits)

lemma visit_afterparty:
  "afterparty_duration (fst (visit p a st)) =
     (if arc_course a = last (courses p) then Some (afterparty_dist p (arc_dest a))
      else afterparty_duration (fst st))"
  by (cases a; cases st) (simp add: visit_def Let_def arc_course_def arc_dest_def)

lemma fold_visit_afterparty:
  "afterparty_duration (fst (fold (visit p) xs st)) =
     (case filter (\<lambda>a. arc_course a = last (courses p)) xs of
        [] \<Rightarrow> afterparty_duration (fst st)
      | y # ys \<Rightarrow> Some (afterparty_dist p (arc_dest (last (y # ys)))))"
proof (induction xs arbitrary: st)
  case Nil
  show ?case by simp
next
  case (Cons x xs)
  show ?case
    by (simp add: Cons visit_afterparty split: list.splits)
qed

lemma decode_team_tour:
  "tour (fst (decode_team p v t)) = map (leg_of p) (active_arcs p v t)"
  by (simp add: decode_team_def fold_visit_tour)

lemma decode_team_sum:
  "snd (decode_team p v t) = (\<Sum>a\<leftarrow>active_arcs p v t. arc_cost p a)"
  by (simp add: decode_team_def fold_visit_sum)

lemma decode_team_afterparty:
  "afterparty_duration (fst (decode_team p v t)) =
     (case filter (\<lambda>a. arc_course a = last (courses p)) (active_arcs p v t) of
        [] \<Rightarrow> None
      | y # ys \<Rightarrow> Some (afterparty_dist p (arc_dest (last (y # ys)))))"
  by (simp add: decode_team_def fold_visit_afterparty split: list.splits)

lemma active_arcs_course:
  assumes "feasible_for p v" "t < n_teams p"
  shows "map arc_course (active_arcs p v t) = courses p"
proof -
  have "arc_course (hd (arcs_at p v t c)) = c" if "c < n_courses p" for c
    using arcs_at_single[OF assms that] by (auto simp: arc_course_def)
  then show ?thesis
    unfolding active_arcs_eq[OF assms] courses_def
    by (auto intro!: nth_equalityI)
qed

lemma filter_last_course:
  assumes "map arc_course xs = [0..<K]" "0 < K"
  shows "filter (\<lambda>a. arc_course a = K - 1) xs = [last xs]"
proof -
  from assms obtain K' where K': "K = Suc K'" by (cases K) auto
  from assms(1) have "length xs = K" by (metis length_map length_upt diff_zero)
  with assms(2) have "xs \<noteq> []" by auto
  then obtain ys y where xs: "xs = ys @ [y]" by (cases xs rule: rev_cases) auto
  with assms K' have ys: "map arc_course ys = [0..<K']" and y: "arc_course y = K'"
    by auto
  have "\<And>a. a \<in> set ys \<Longrightarrow> arc_course a \<noteq> K'"
  proof -
    fix a assume "a \<in> set ys"
    then have "arc_course a \<in> set (map arc_course ys)" by simp
    then show "arc_course a \<noteq> K'" unfolding ys by simp
  qed
  then have "filter (\<lambda>a. arc_course a = K') ys = []"
    by (simp add: filter_empty_conv)
  with xs y K' show ?thesis by simp
qed

lemma build_model_constraints:
  assumes "build_model p = Inr m"
  shows "constraints m = all_constraints p" and "binaries m = binary_vars p"
  using assms by (auto simp: build_model_def bind_err_def split: if_splits sum.splits)

lemma feasible_for_iff:
  "feasible_for p v \<longleftrightarrow> (\<exists>m. build_model p = Inr m \<and> feasible m v)"
  by (auto simp: feasible_for_def split: sum.splits)

subsection \<open>The worked instance is feasible\<close>

lemma feasible_p4: "feasible_for p4 v4"
  by code_simp

lemma n_courses_p4: "n_courses p4 = 2"
  by (simp add: p4_def n_courses_def default_args_def)

lemma min_time_terms_value:
  "terms_value v (min_time_terms p t) =
     (\<Sum>c<n_courses p. \<Sum>i<n_teams p. \<Sum>j<n_teams p. \<Sum>g<n_groups p.
        if j \<noteq> i then distance_matrix p i j c * v (Arc c i j t g) else 0)"
proof -
  have "(\<Sum>x\<leftarrow>xs. terms_value v (if P x then [(a x, f x)] else [])) =
        (\<Sum>x\<leftarrow>xs. if P x then a x * v (f x) else 0)" for xs P a and f :: "nat \<Rightarrow> var"
    by (induction xs) simp_all
  then show ?thesis
    by (simp add: min_time_terms_def courses_def teams_def groups_def)
qed

lemma fold_group_cook:
  "cook (fold (\<lambda>t mygroup.
             if A t then (if C t then mygroup\<lparr>cook := Some t\<rparr>
                          else mygroup\<lparr>guests := guests mygroup @ [t]\<rparr>)
             else mygroup) ts g0) =
   (case filter (\<lambda>t. A t \<and> C t) ts of [] \<Rightarrow> cook g0 | x # xs \<Rightarrow> Some (last (x # xs)))"
  by (induction ts arbitrary: g0) (auto split: list.splits)

lemma fold_group_guests:
  "guests (fold (\<lambda>t mygroup.
             if A t then (if C t then mygroup\<lparr>cook := Some t\<rparr>
                          else mygroup\<lparr>guests := guests mygroup @ [t]\<rparr>)
             else mygroup) ts g0) =
   guests g0 @ filter (\<lambda>t. A t \<and> \<not> C t) ts"
  by (induction ts arbitrary: g0) auto

subsection \<open>Switching preference weighting\<close>

lemma wip_simps [simp]:
  "n_teams (with_ignore_preferences b p) = n_teams p"
  "n_courses (with_ignore_preferences b p) = n_courses p"
  "n_groups (with_ignore_preferences b p) = n_groups p"
  "courses (with_ignore_preferences b p) = courses p"
  "teams (with_ignore_preferences b p) = teams p"
  "groups (with_ignore_preferences b p) = groups p"
  "pref (with_ignore_preferences b p) = pref p"
  "addr (with_ignore_preferences b p) = addr p"
  "distance_matrix (with_ignore_preferences b p) = distance_matrix p"
  "afterparty_dist (with_ignore_preferences b p) = afterparty_dist p"
  "ignore_preferences (opts (with_ignore_preferences b p)) = b"
  "can_meet_again (opts (with_ignore_preferences b p)) = can_meet_again (opts p)"
  "can_stay (opts (with_ignore_preferences b p)) = can_stay (opts p)"
  "ignore_max_dist (opts (with_ignore_preferences b p)) = ignore_max_dist (opts p)"
  "ignore_avg_dist (opts (with_ignore_preferences b p)) = ignore_avg_dist (opts p)"
  "min_travel (opts (with_ignore_preferences b p)) = min_travel (opts p)"
  "large_teams (opts (with_ignore_preferences b p)) = large_teams (opts p)"
  "cook_incompatible (opts (with_ignore_preferences b p)) = cook_incompatible (opts p)"
  by (simp_all add: with_ignore_preferences_def n_courses_def n_groups_def courses_def
      teams_def groups_def)

lemma wip_families:
  "assign_once (with_ignore_preferences b p) = assign_once p"
  "group_size (with_ignore_preferences b p) = group_size p"
  "meet_once (with_ignore_preferences b p) = meet_once p"
  "one_chef (with_ignore_preferences b p) = one_chef p"
  "chef_once (with_ignore_preferences b p) = chef_once p"
  "chef_if_assigned (with_ignore_preferences b p) = chef_if_assigned p"
  "arc_if_assigned (with_ignore_preferences b p) = arc_if_assigned p"
  "start_at_self (with_ignore_preferences b p) = start_at_self p"
  "only_to_chef (with_ignore_preferences b p) = only_to_chef p"
  "leave_if_entering (with_ignore_preferences b p) = leave_if_entering p"
  "max_dist (with_ignore_preferences b p) = max_dist p"
  "min_time (with_ignore_preferences b p) = min_time p"
  "no_stay (with_ignore_preferences b p) = no_stay p"
  "incompatible (with_ignore_preferences b p) = incompatible p"
  "large_team (with_ignore_preferences b p) = large_team p"
  "same_address (with_ignore_preferences b p) = same_address p"
  "binary_vars (with_ignore_preferences b p) = binary_vars p"
  "incompatible_keys_ok (with_ignore_preferences b p) = incompatible_keys_ok p"
  by (simp_all add: assign_once_def assign_once_constr_def group_size_def group_size_constr_def
      meet_once_def one_chef_def one_chef_constr_def chef_once_def chef_once_constr_def
      chef_if_assigned_def arc_if_assigned_def arc_if_assigned_constr_def
      start_at_self_def start_at_self_constr_def only_to_chef_def
      leave_if_entering_def leave_if_entering_constr_def
      max_dist_def max_dist_constr_def route_terms_def leg_cost_def
      min_time_def min_time_constr_def min_time_terms_def no_stay_def
      incompatible_def large_team_def same_address_def same_addr_team_def
      binary_vars_def incompatible_keys_ok_def cong: if_cong option.case_cong)

lemma set_no_chef_on:
  "set (no_chef (with_ignore_preferences False p)) =
     {no_chef_constr t g c | t g c.
        t < n_teams p \<and> c < n_courses p \<and> g < n_groups p \<and> pref p t c \<le> - 1000}"
  by (auto simp: no_chef_def)

lemma no_chef_off: "no_chef (with_ignore_preferences True p) = []"
  by (simp add: no_chef_def)

lemma set_all_constraints_on:
  "set (all_constraints (with_ignore_preferences False p)) =
     set (all_constraints (with_ignore_preferences True p)) \<union>
     set (no_chef (with_ignore_preferences False p))"
  by (auto simp: all_constraints_def wip_families no_chef_off)

lemma build_off:
  assumes "build_model (with_ignore_preferences False p) = Inr m_on"
  shows "\<exists>m_off. build_model (with_ignore_preferences True p) = Inr m_off"
  using assms
  by (auto simp: build_model_def bind_err_def objective_def max_pref_def preferences_def
      wip_families split: if_splits sum.splits)

lemma wip_p4: "with_ignore_preferences False p4 = p4"
  by (simp add: with_ignore_preferences_def p4_def default_args_def)

subsection \<open>The preference term\<close>





subsection \<open>Input assembly\<close>

lemma map_err_length:
  "map_err f xs = Inr ys \<Longrightarrow> length ys = length xs"
  by (induction xs arbitrary: ys) (auto simp: bind_err_def split: sum.splits)

lemma read_csv_length:
  assumes "read_csv a fl (headers # rows) = Inr data"
  shows "length data = length rows"
  using assms
  by (auto simp: read_csv_def bind_err_def split: sum.splits dest: map_err_length)

lemma assemble_not_divisible:
  assumes "length rows mod nat (num_courses a) \<noteq> 0"
  shows "assemble a ext (headers # rows) =
     (case read_csv a (float_of ext) (headers # rows) of
        Inl e \<Rightarrow> Inl e
      | Inr data \<Rightarrow> Inl (if nat (num_courses a) = 0 then ZeroDivisionError else SystemExit 1))"
proof (cases "read_csv a (float_of ext) (headers # rows)")
  case (Inl e)
  then show ?thesis by (simp add: assemble_def bind_err_def)
next
  case (Inr data)
  from read_csv_length[OF Inr] assms
  have "check_divisible a (length data) =
          Inl (if nat (num_courses a) = 0 then ZeroDivisionError else SystemExit 1)"
    by (simp add: check_divisible_def)
  with Inr show ?thesis by (simp add: assemble_def bind_err_def)
qed

subsection \<open>Groups, chefs and meeting only once\<close>

lemma no_second_meeting:
  assumes f: "feasible_for p v" and u: "\<not> can_meet_again (opts p)"
    and t: "t1 < n_teams p" "t2 < n_teams p" "t1 \<noteq> t2"
    and c: "c1 < n_courses p" "c2 < n_courses p" "c1 \<noteq> c2"
    and g: "g1 < n_groups p" "g2 < n_groups p"
    and a: "v (Assignment t1 g1 c1) = 1" "v (Assignment t2 g1 c1) = 1"
      "v (Assignment t1 g2 c2) = 1"
  shows "v (Assignment t2 g2 c2) \<noteq> 1"
proof
  assume e: "v (Assignment t2 g2 c2) = 1"
  have key: "v (Assignment a g c) + v (Assignment b g c) +
             v (Assignment a g' c') + v (Assignment b g' c') \<le> 3"
    if "a < b" "b < n_teams p" "c < c'" "c' < n_courses p" "g < n_groups p" "g' < n_groups p"
    for a b c c' g g'
    using meet_onceD[OF f u that(3,4,5,6,1,2)] .
  consider "t1 < t2" "c1 < c2" | "t1 < t2" "c2 < c1" | "t2 < t1" "c1 < c2" | "t2 < t1" "c2 < c1"
    using t(3) c(3) by linarith
  then show False
  proof cases
    case 1 with key[of t1 t2 c1 c2 g1 g2] t c g a e show False by simp
  next
    case 2 with key[of t1 t2 c2 c1 g2 g1] t c g a e show False by simp
  next
    case 3 with key[of t2 t1 c1 c2 g1 g2] t c g a e show False by simp
  next
    case 4 with key[of t2 t1 c2 c1 g2 g1] t c g a e show False by simp
  qed
qed

lemma group_members_card:
  assumes "feasible_for p v" "g < n_groups p" "c < n_courses p"
  shows "card {t. t < n_teams p \<and> v (Assignment t g c) = 1} = n_courses p"
proof -
  have "real (card {t \<in> {..<n_teams p}. v (Assignment t g c) = 1}) =
        (\<Sum>t<n_teams p. v (Assignment t g c))"
    by (rule binary_sum_count[symmetric])
       (use binary_Assignment[OF assms(1) _ assms(2,3)] in auto)
  also have "\<dots> = real (n_courses p)" using assms by (rule group_sizeD)
  finally show ?thesis by simp
qed

lemma team_has_group:
  assumes "feasible_for p v" "t < n_teams p" "c < n_courses p"
  shows "\<exists>g<n_groups p. v (Assignment t g c) = 1"
  using binary_sum_one[of "{..<n_groups p}" "\<lambda>g. v (Assignment t g c)"]
    binary_Assignment[OF assms(1,2) _ assms(3)] assign_onceD[OF assms]
  by auto

lemma meet_once_needs_groups:
  assumes f: "feasible_for p v" and u: "\<not> can_meet_again (opts p)" and K: "2 \<le> n_courses p"
  shows "n_courses p \<le> n_groups p"
proof (rule ccontr)
  assume "\<not> n_courses p \<le> n_groups p"
  then have lt: "n_groups p < n_courses p" by simp
  have n: "0 < n_teams p" using f by (rule feasible_forD)
  have c0: "0 < n_courses p" and c1: "1 < n_courses p" using K by simp_all
  obtain g0 where g0: "g0 < n_groups p"
    using team_has_group[OF f n c0] by blast
  let ?S = "{t. t < n_teams p \<and> v (Assignment t g0 0) = 1}"
  have cS: "card ?S = n_courses p" by (rule group_members_card[OF f g0 c0])
  define h where "h t = (SOME g. g < n_groups p \<and> v (Assignment t g 1) = 1)" for t
  have h: "h t < n_groups p \<and> v (Assignment t (h t) 1) = 1" if "t < n_teams p" for t
    unfolding h_def using team_has_group[OF f that c1] by (rule someI_ex[OF exE]) blast
  have "h ` ?S \<subseteq> {..<n_groups p}" using h by auto
  then have "card (h ` ?S) \<le> n_groups p"
    using card_mono[of "{..<n_groups p}" "h ` ?S"] by simp
  with lt cS have "card (h ` ?S) < card ?S" by simp
  then have "\<not> inj_on h ?S" using pigeonhole by blast
  then obtain t1 t2 where t: "t1 \<in> ?S" "t2 \<in> ?S" "t1 \<noteq> t2" "h t1 = h t2"
    by (auto simp: inj_on_def)
  then have "v (Assignment t2 (h t1) 1) \<noteq> 1"
    using no_second_meeting[OF f u, of t1 t2 0 1 g0 "h t1"] h[of t1] c0 c1 g0 by auto
  with t h[of t2] show False by auto
qed

lemma group_chef:
  assumes "feasible_for p v" "g < n_groups p" "c < n_courses p"
  shows "\<exists>ch<n_teams p. v (Chef ch g c) = 1 \<and> v (Assignment ch g c) = 1 \<and>
           (\<forall>t<n_teams p. v (Chef t g c) = 1 \<longrightarrow> t = ch)"
proof -
  from binary_sum_one[of "{..<n_teams p}" "\<lambda>t. v (Chef t g c)"]
    binary_Chef[OF assms(1) _ assms(2,3)] one_chefD[OF assms]
  obtain ch where ch: "ch < n_teams p" "v (Chef ch g c) = 1"
    "\<forall>t. t < n_teams p \<and> v (Chef t g c) = 1 \<longrightarrow> t = ch"
    by auto
  from chef_if_assignedD[OF assms(1) ch(1) assms(2,3)] ch(2)
    binary_Assignment[OF assms(1) ch(1) assms(2,3)]
  have "v (Assignment ch g c) = 1" by auto
  with ch show ?thesis by blast
qed

lemma filter_upt_single:
  assumes "x < n" "P x" "\<And>y. y < n \<Longrightarrow> P y \<Longrightarrow> y = x"
  shows "filter P [0..<n] = [x]"
proof -
  have "{y. P y} \<inter> set [0..<n] = {x}"
  proof (intro equalityI subsetI)
    fix y assume "y \<in> {y. P y} \<inter> set [0..<n]"
    then have "y < n" "P y" by simp_all
    from assms(3)[OF this] show "y \<in> {x}" by simp
  next
    fix y assume "y \<in> {x}"
    then show "y \<in> {y. P y} \<inter> set [0..<n]" using assms(1,2) by simp
  qed
  then have "length (filter P [0..<n]) = card {x}"
    by (simp only: distinct_length_filter[OF distinct_upt])
  then have "length (filter P [0..<n]) = 1" by simp
  then obtain y where y: "filter P [0..<n] = [y]"
    by (cases "filter P [0..<n]") auto
  then have "y \<in> set (filter P [0..<n])" by simp
  then have "y < n" "P y" by simp_all
  from assms(3)[OF this] y show ?thesis by simp
qed

lemma decode_group_feasible:
  assumes "feasible_for p v" "g < n_groups p" "c < n_courses p"
  shows "\<exists>ch<n_teams p. v (Chef ch g c) = 1 \<and>
            cook (decode_group p v c g) = Some ch \<and>
            length (guests (decode_group p v c g)) = n_courses p - 1"
proof -
  from group_chef[OF assms] obtain ch where ch: "ch < n_teams p" "v (Chef ch g c) = 1"
    "v (Assignment ch g c) = 1" "\<forall>t<n_teams p. v (Chef t g c) = 1 \<longrightarrow> t = ch"
    by blast
  let ?A = "\<lambda>t. v (Assignment t g c) = 1" and ?C = "\<lambda>t. v (Chef t g c) = 1"
  have "filter (\<lambda>t. ?A t \<and> ?C t) (teams p) = [ch]"
    unfolding teams_def
  proof (rule filter_upt_single)
    show "ch < n_teams p" by (rule ch(1))
    show "?A ch \<and> ?C ch" using ch(2,3) by simp
    show "y = ch" if "y < n_teams p" "?A y \<and> ?C y" for y
      using ch(4) that by blast
  qed
  then have ck: "cook (decode_group p v c g) = Some ch"
    by (simp add: decode_group_def fold_group_cook)
  have "{t. ?A t \<and> \<not> ?C t} \<inter> set [0..<n_teams p] =
        {t. t < n_teams p \<and> ?A t} - {ch}"
  proof (intro equalityI subsetI)
    fix t assume "t \<in> {t. ?A t \<and> \<not> ?C t} \<inter> set [0..<n_teams p]"
    then have "t < n_teams p" "?A t" "\<not> ?C t" by simp_all
    with ch(2) show "t \<in> {t. t < n_teams p \<and> ?A t} - {ch}" by auto
  next
    fix t assume "t \<in> {t. t < n_teams p \<and> ?A t} - {ch}"
    then have t: "t < n_teams p" "?A t" "t \<noteq> ch" by simp_all
    with ch(4) have "\<not> ?C t" by blast
    with t show "t \<in> {t. ?A t \<and> \<not> ?C t} \<inter> set [0..<n_teams p]" by simp
  qed
  then have "length (filter (\<lambda>t. ?A t \<and> \<not> ?C t) (teams p)) =
        card ({t. t < n_teams p \<and> ?A t} - {ch})"
    unfolding teams_def by (simp only: distinct_length_filter[OF distinct_upt])
  also have "\<dots> = card {t. t < n_teams p \<and> ?A t} - 1"
    by (rule card_Diff_singleton) (use ch(1,3) in simp)
  also have "\<dots> = n_courses p - 1"
    by (simp only: group_members_card[OF assms])
  finally have "length (guests (decode_group p v c g)) = n_courses p - 1"
    by (simp add: decode_group_def fold_group_guests)
  with ck ch show ?thesis by blast
qed

lemma first_course_host:
  assumes f: "feasible_for p v" and t: "t < n_teams p"
    and a: "arcs_at p v t 0 = [(0, i, j, g)]"
  shows "i = t" and "j = t \<longleftrightarrow> v (Chef t g 0) = 1" and "g < n_groups p"
proof -
  have K: "0 < n_courses p" using f by (rule feasible_forD)
  show "i = t" by (rule arcs_start[OF f t a])
  have "(0, i, j, g) \<in> set (arcs_at p v t 0)" using a by simp
  then have r: "j < n_teams p" "g < n_groups p" by (auto simp: set_arcs_at)
  show "g < n_groups p" by fact
  from arc_to_chef[OF f t K a] have cj: "v (Chef j g 0) = 1" by simp
  from group_chef[OF f r(2) K] obtain ch where
    "\<forall>t<n_teams p. v (Chef t g 0) = 1 \<longrightarrow> t = ch" by blast
  with cj r t show "j = t \<longleftrightarrow> v (Chef t g 0) = 1" by auto
qed

lemma someone_hosts_later:
  assumes f: "feasible_for p v" and K: "2 \<le> n_courses p"
  shows "\<exists>t<n_teams p. \<forall>g<n_groups p. v (Chef t g 0) \<noteq> 1"
proof (rule ccontr)
  assume "\<not> ?thesis"
  then have all: "\<And>t. t < n_teams p \<Longrightarrow> \<exists>g<n_groups p. v (Chef t g 0) = 1" by auto
  have c0: "0 < n_courses p" using K by simp
  have n: "0 < n_teams p" using f by (rule feasible_forD)
  have "real (n_teams p) = (\<Sum>t<n_teams p. 1)" by simp
  also have "\<dots> \<le> (\<Sum>t<n_teams p. \<Sum>g<n_groups p. v (Chef t g 0))"
  proof (rule sum_mono)
    fix t assume "t \<in> {..<n_teams p}"
    then have t: "t < n_teams p" by simp
    from all[OF t] obtain g where g: "g < n_groups p" "v (Chef t g 0) = 1" by blast
    have "v (Chef t g 0) \<le> (\<Sum>g<n_groups p. v (Chef t g 0))"
      by (rule member_le_sum) (use g binary_Chef[OF f t _ c0] in force)+
    with g show "1 \<le> (\<Sum>g<n_groups p. v (Chef t g 0))" by simp
  qed
  also have "\<dots> = (\<Sum>g<n_groups p. \<Sum>t<n_teams p. v (Chef t g 0))"
    by (rule sum.swap)
  also have "\<dots> = (\<Sum>g<n_groups p. 1)"
    by (rule sum.cong[OF refl]) (use one_chefD[OF f _ c0] in simp)
  also have "\<dots> = real (n_groups p)" by simp
  finally have "n_teams p \<le> n_groups p" by simp
  moreover have "n_groups p < n_teams p"
    unfolding n_groups_def using n K by (intro div_less_dividend) auto
  ultimately show False by simp
qed

lemma upt_3: "[0..<3] = [0, 1, 2]"
  by code_simp

lemma team_total_three:
  assumes f: "feasible_for p v" and t: "t < n_teams p" and K: "n_courses p = 3"
    and D: "\<forall>i<n_teams p. \<forall>j<n_teams p. \<forall>c<3.
              distance_matrix p i j c = (if i = j then 0 else 10)"
    and A: "\<forall>t<n_teams p. afterparty_dist p t = 0"
  shows "snd (decode_team p v t) =
           (if v (Chef t (arc_group (active_arcs p v t ! 0)) 0) = 1 then 20 else 30)"
proof -
  have c: "0 < n_courses p" "1 < n_courses p" "2 < n_courses p" using K by simp_all
  obtain i0 j0 g0 where a0: "arcs_at p v t 0 = [(0, i0, j0, g0)]"
    and r0: "i0 < n_teams p" "j0 < n_teams p"
    using arcs_at_single[OF f t c(1)] by blast
  obtain i1 j1 g1 where a1: "arcs_at p v t 1 = [(1, i1, j1, g1)]"
    and r1: "i1 < n_teams p" "j1 < n_teams p"
    using arcs_at_single[OF f t c(2)] by blast
  obtain i2 j2 g2 where a2: "arcs_at p v t 2 = [(2, i2, j2, g2)]"
    and r2: "i2 < n_teams p" "j2 < n_teams p"
    using arcs_at_single[OF f t c(3)] by blast
  have as: "active_arcs p v t = [(0, i0, j0, g0), (1, i1, j1, g1), (2, i2, j2, g2)]"
    by (simp add: active_arcs_eq[OF f t] K upt_3 a0 a1[simplified] a2)
  have n1: "j1 \<noteq> i1"
    using arcs_chain[OF f t _ c(2), of i0 j0 g0 i1 j1 g1] a0 a1 by simp
  have n2: "j2 \<noteq> i2"
    using arcs_chain[OF f t _ c(3), of i1 j1 g1 i2 j2 g2] a1 a2 by simp
  have h: "i0 = t" "j0 = t \<longleftrightarrow> v (Chef t g0 0) = 1"
    using first_course_host[OF f t a0] by simp_all
  have d0: "distance_matrix p i0 j0 0 = (if i0 = j0 then 0 else 10)"
    and d1: "distance_matrix p i1 j1 1 = 10"
    and d2: "distance_matrix p i2 j2 2 = 10"
    using D r0 r1 r2 n1 n2 by simp_all
  have ap: "afterparty_dist p j2 = 0" using A r2 by simp
  have "snd (decode_team p v t) =
          distance_matrix p i0 j0 0 + distance_matrix p i1 j1 1 + distance_matrix p i2 j2 2"
    by (simp add: decode_team_sum as arc_cost_def last_courses[OF c(1)] K ap)
  also have "\<dots> = (if v (Chef t g0 0) = 1 then 20 else 30)"
    unfolding d0 d1 d2 using h by auto
  finally show ?thesis by (simp add: as arc_group_def)
qed

lemma feasible_p3: "feasible_for p3 v3"
  by code_simp

section \<open>Routing: one leg per course, and the legs chain\<close>

text \<open>
  C2. In every feasible solution of the model and for every team, the decoder visits
  exactly one arc in every course, in course order, so the tour has as many legs as
  there are courses; exactly one visit (the last) is in the last course and stores the
  afterparty leg; the arc of every course ends at the chef of the team's group in that
  course; and the arc of each course ends where the arc of the next course starts.
\<close>

theorem itinerary_chain:
  assumes "feasible_for p v" and "t < n_teams p"
  shows "length (tour (fst (decode_team p v t))) = n_courses p \<and>
         map gang (tour (fst (decode_team p v t))) = courses p \<and>
         (\<forall>c<n_courses p. arcs_at p v t c = [active_arcs p v t ! c]) \<and>
         length (filter (\<lambda>a. arc_course a = last (courses p)) (active_arcs p v t)) = 1 \<and>
         afterparty_duration (fst (decode_team p v t)) =
           Some (afterparty_dist p (arc_dest (last (active_arcs p v t)))) \<and>
         (\<forall>c<n_courses p.
            v (Chef (arc_dest (active_arcs p v t ! c)) (arc_group (active_arcs p v t ! c)) c) = 1 \<and>
            v (Assignment t (arc_group (active_arcs p v t ! c)) c) = 1) \<and>
         (\<forall>c. Suc c < n_courses p \<longrightarrow>
            arc_dest (active_arcs p v t ! c) = arc_origin (active_arcs p v t ! Suc c))"
proof -
  let ?as = "active_arcs p v t"
  have K: "0 < n_courses p" using assms(1) by (rule feasible_forD)
  have crs: "map arc_course ?as = courses p"
    by (rule active_arcs_course[OF assms])
  then have len: "length ?as = n_courses p"
    by (metis length_map length_courses)
  have gang: "gang (leg_of p a) = arc_course a" for a
    by (cases a) (simp add: leg_of_def arc_course_def)
  have one: "arcs_at p v t c = [?as ! c]" if "c < n_courses p" for c
    using that by (rule active_arcs_nth[OF assms])
  have flt: "filter (\<lambda>a. arc_course a = last (courses p)) ?as = [last ?as]"
    using filter_last_course[of ?as "n_courses p"] crs K
    by (simp add: courses_def last_courses)
  have chef: "v (Chef (arc_dest (?as ! c)) (arc_group (?as ! c)) c) = 1 \<and>
              v (Assignment t (arc_group (?as ! c)) c) = 1" if h: "c < n_courses p" for c
  proof -
    obtain i j g where e: "arcs_at p v t c = [(c, i, j, g)]"
      using arcs_at_single[OF assms h] by blast
    with one[OF h] have "?as ! c = (c, i, j, g)" by simp
    with arc_to_chef[OF assms h e] show ?thesis
      by (simp add: arc_dest_def arc_group_def)
  qed
  have chain: "arc_dest (?as ! c) = arc_origin (?as ! Suc c)" if h: "Suc c < n_courses p" for c
  proof -
    have c: "c < n_courses p" using h by simp
    obtain i j g where e: "arcs_at p v t c = [(c, i, j, g)]"
      using arcs_at_single[OF assms c] by blast
    obtain i' j' g' where e': "arcs_at p v t (Suc c) = [(Suc c, i', j', g')]"
      using arcs_at_single[OF assms h] by blast
    have "i' = j \<and> j' \<noteq> i'"
      using arcs_chain[OF assms _ h, of i j g i' j' g'] e e' by simp
    moreover have "?as ! c = (c, i, j, g)" "?as ! Suc c = (Suc c, i', j', g')"
      using one[OF c] one[OF h] e e' by simp_all
    ultimately show ?thesis by (simp add: arc_dest_def arc_origin_def)
  qed
  show ?thesis
    using len crs one flt chef chain
    by (simp add: decode_team_tour decode_team_afterparty comp_def gang)
qed

theorem itinerary_chain_witness:
  "feasible_for p4 v4 \<and> (1::nat) < n_teams p4 \<and>
   active_arcs p4 v4 1 = [(0, 1, 0, 0), (1, 0, 1, 1)] \<and>
   length (tour (fst (decode_team p4 v4 1))) = 2 \<and>
   afterparty_duration (fst (decode_team p4 v4 1)) = Some 5 \<and>
   arc_dest (active_arcs p4 v4 1 ! 0) = arc_origin (active_arcs p4 v4 1 ! Suc 0)"
proof -
  have n: "(1::nat) < n_teams p4" by (simp add: p4_def)
  note K = n_courses_p4
  have a: "active_arcs p4 v4 1 = [(0, 1, 0, 0), (1, 0, 1, 1)]" by code_simp
  from itinerary_chain[OF feasible_p4 n]
  have "length (tour (fst (decode_team p4 v4 1))) = n_courses p4"
    and "afterparty_duration (fst (decode_team p4 v4 1)) =
           Some (afterparty_dist p4 (arc_dest (last (active_arcs p4 v4 1))))"
    and "\<forall>c. Suc c < n_courses p4 \<longrightarrow>
           arc_dest (active_arcs p4 v4 1 ! c) = arc_origin (active_arcs p4 v4 1 ! Suc c)"
    by blast+
  moreover have "afterparty_dist p4 j = 5" for j by (simp add: p4_def)
  ultimately show ?thesis
    using n a feasible_p4 by (simp add: K arc_dest_def arc_origin_def)
qed

section \<open>Teams meet only once\<close>

text \<open>
  C5. Without \<^verbatim>\<open>--can-meet-again\<close>, in every feasible solution two distinct teams that
  share a group in one course do not share a group in another course; the model
  contains for this exactly the constraints
  \<open>assignment(t1,g1,c1) + assignment(t2,g1,c1) + assignment(t1,g2,c2) + assignment(t2,g2,c2) \<le> 3\<close>
  for all courses \<open>c1 < c2\<close>, all groups \<open>g1\<close>, \<open>g2\<close> and all teams \<open>t1 < t2\<close>.
\<close>

theorem meet_once_ok:
  assumes "feasible_for p v" and "\<not> can_meet_again (opts p)"
  shows "(\<forall>t1 t2 c1 c2 g1 g2.
            t1 < n_teams p \<and> t2 < n_teams p \<and> t1 \<noteq> t2 \<and>
            c1 < n_courses p \<and> c2 < n_courses p \<and> c1 \<noteq> c2 \<and>
            g1 < n_groups p \<and> g2 < n_groups p \<and>
            v (Assignment t1 g1 c1) = 1 \<and> v (Assignment t2 g1 c1) = 1 \<and>
            v (Assignment t1 g2 c2) = 1
            \<longrightarrow> v (Assignment t2 g2 c2) \<noteq> 1) \<and>
         set (meet_once p) =
           {meet_constr c1 c2 g1 g2 t1 t2 | c1 c2 g1 g2 t1 t2.
              c1 < c2 \<and> c2 < n_courses p \<and> g1 < n_groups p \<and> g2 < n_groups p \<and>
              t1 < t2 \<and> t2 < n_teams p} \<and>
         (\<exists>m. build_model p = Inr m \<and> set (meet_once p) \<subseteq> set (constraints m))"
proof (intro conjI allI impI)
  fix t1 t2 c1 c2 g1 g2
  assume "t1 < n_teams p \<and> t2 < n_teams p \<and> t1 \<noteq> t2 \<and>
            c1 < n_courses p \<and> c2 < n_courses p \<and> c1 \<noteq> c2 \<and>
            g1 < n_groups p \<and> g2 < n_groups p \<and>
            v (Assignment t1 g1 c1) = 1 \<and> v (Assignment t2 g1 c1) = 1 \<and>
            v (Assignment t1 g2 c2) = 1"
  then show "v (Assignment t2 g2 c2) \<noteq> 1"
    using no_second_meeting[OF assms, of t1 t2 c1 c2 g1 g2] by blast
next
  show "set (meet_once p) =
           {meet_constr c1 c2 g1 g2 t1 t2 | c1 c2 g1 g2 t1 t2.
              c1 < c2 \<and> c2 < n_courses p \<and> g1 < n_groups p \<and> g2 < n_groups p \<and>
              t1 < t2 \<and> t2 < n_teams p}" (is "?L = ?R")
  proof
    show "?L \<subseteq> ?R"
      using assms(2) by (auto simp: meet_once_def) (use Suc_le_lessD in blast)
    show "?R \<subseteq> ?L" using meet_once_mem[OF assms(2)] by blast
  qed
next
  from assms(1) obtain m where m: "build_model p = Inr m"
    by (auto simp: feasible_for_iff)
  with build_model_constraints(1)[OF m] family_subset(3)[of p]
  show "\<exists>m. build_model p = Inr m \<and> set (meet_once p) \<subseteq> set (constraints m)"
    by auto
qed

theorem meet_once_ok_witness:
  "feasible_for p4 v4 \<and> \<not> can_meet_again (opts p4) \<and>
   v4 (Assignment 0 0 0) = 1 \<and> v4 (Assignment 1 0 0) = 1 \<and> v4 (Assignment 0 0 1) = 1 \<and>
   v4 (Assignment 1 0 1) \<noteq> 1 \<and>
   meet_constr 0 1 0 0 0 1 \<in> set (meet_once p4)"
proof -
  have c: "\<not> can_meet_again (opts p4)" by (simp add: p4_def default_args_def)
  have r: "n_teams p4 = 4" "n_groups p4 = 2"
    by (simp_all add: p4_def n_groups_def n_courses_def default_args_def)
  note th = meet_once_ok[OF feasible_p4 c]
  have ex: "\<exists>c1 c2 g1 g2 t1 t2.
          meet_constr 0 1 0 0 0 1 = meet_constr c1 c2 g1 g2 t1 t2 \<and>
          c1 < c2 \<and> c2 < n_courses p4 \<and> g1 < n_groups p4 \<and> g2 < n_groups p4 \<and>
          t1 < t2 \<and> t2 < n_teams p4"
    by (rule exI[of _ 0], rule exI[of _ 1], rule exI[of _ 0], rule exI[of _ 0],
        rule exI[of _ 0], rule exI[of _ 1]) (simp add: r n_courses_p4)
  have mem: "meet_constr 0 1 0 0 0 1 \<in> set (meet_once p4)"
    using ex by (simp only: th[THEN conjunct2, THEN conjunct1] mem_Collect_eq)
  have v: "v4 (Assignment 0 0 0) = 1" "v4 (Assignment 1 0 0) = 1" "v4 (Assignment 0 0 1) = 1"
    by (simp_all add: group4_def)
  have "v4 (Assignment 1 0 1) \<noteq> 1"
    using th[THEN conjunct1, rule_format, of 0 1 0 1 0 0] v
    by (simp add: r n_courses_p4)
  with feasible_p4 c v mem show ?thesis
    by (intro conjI) assumption+
qed

section \<open>Minimum travel time\<close>

text \<open>
  C10. Every model that is built, whatever the options, contains for each team the
  constraint that the team's travel time over its arcs is at least \<^verbatim>\<open>--min-travel\<close>
  (1 by default). The sum has one term for each arc between two distinct teams in a
  course, weighted by the distance of that arc in that course: no self-arc and no
  afterparty distance occurs in it.
\<close>

theorem min_travel_ok:
  assumes "build_model p = Inr m" and "t < n_teams p"
  shows "min_time_constr p t \<in> set (constraints m) \<and>
         min_time_constr p t =
           Constr (lpSum (min_time_terms p t)) GE (lpConst (real_of_int (min_travel (opts p)))) \<and>
         (\<forall>(a, x) \<in> set (min_time_terms p t).
            \<exists>c i j g. x = Arc c i j t g \<and> i \<noteq> j \<and> a = distance_matrix p i j c \<and>
                      c < n_courses p \<and> i < n_teams p \<and> j < n_teams p \<and> g < n_groups p) \<and>
         (\<forall>v. feasible m v \<longrightarrow>
            real_of_int (min_travel (opts p)) \<le>
              (\<Sum>c<n_courses p. \<Sum>i<n_teams p. \<Sum>j<n_teams p. \<Sum>g<n_groups p.
                 if j \<noteq> i then distance_matrix p i j c * v (Arc c i j t g) else 0)) \<and>
         min_travel (default_args dt) = 1"
proof (intro conjI allI impI)
  have "min_time_constr p t \<in> set (min_time p)"
    using assms(2) by (force simp: min_time_def)
  then show "min_time_constr p t \<in> set (constraints m)"
    using family_subset(13)[of p] build_model_constraints(1)[OF assms(1)] by auto
next
  show "min_time_constr p t =
      Constr (lpSum (min_time_terms p t)) GE (lpConst (real_of_int (min_travel (opts p))))"
    by (simp add: min_time_constr_def)
next
  show "\<forall>(a, x) \<in> set (min_time_terms p t).
            \<exists>c i j g. x = Arc c i j t g \<and> i \<noteq> j \<and> a = distance_matrix p i j c \<and>
                      c < n_courses p \<and> i < n_teams p \<and> j < n_teams p \<and> g < n_groups p"
    by (auto simp: min_time_terms_def split: if_splits)
next
  fix v assume "feasible m v"
  then have "feasible_for p v" using assms(1) by (auto simp: feasible_for_iff)
  from min_timeD[OF this assms(2)]
  show "real_of_int (min_travel (opts p)) \<le>
              (\<Sum>c<n_courses p. \<Sum>i<n_teams p. \<Sum>j<n_teams p. \<Sum>g<n_groups p.
                 if j \<noteq> i then distance_matrix p i j c * v (Arc c i j t g) else 0)"
    by (simp add: min_time_terms_value)
next
  show "min_travel (default_args dt) = 1" by (simp add: default_args_def)
qed

theorem min_travel_ok_witness:
  "\<exists>m. build_model p4 = Inr m \<and> (0::nat) < n_teams p4 \<and>
       min_time_constr p4 0 \<in> set (constraints m) \<and> feasible m v4 \<and>
       real_of_int (min_travel (opts p4)) \<le>
         (\<Sum>c<n_courses p4. \<Sum>i<n_teams p4. \<Sum>j<n_teams p4. \<Sum>g<n_groups p4.
            if j \<noteq> i then distance_matrix p4 i j c * v4 (Arc c i j 0 g) else 0)"
proof -
  from feasible_p4 obtain m where m: "build_model p4 = Inr m" "feasible m v4"
    by (auto simp: feasible_for_iff)
  have n: "(0::nat) < n_teams p4" by (simp add: p4_def)
  note th = min_travel_ok[OF m(1) n, of 0]
  from th have "min_time_constr p4 0 \<in> set (constraints m)" by (rule conjunct1)
  moreover from th m(2) have "real_of_int (min_travel (opts p4)) \<le>
         (\<Sum>c<n_courses p4. \<Sum>i<n_teams p4. \<Sum>j<n_teams p4. \<Sum>g<n_groups p4.
            if j \<noteq> i then distance_matrix p4 i j c * v4 (Arc c i j 0 g) else 0)"
    by blast
  ultimately show ?thesis using m n by blast
qed

section \<open>Teams that must not cook for each other\<close>

text \<open>
  C4. The option \<^verbatim>\<open>--cook-incompatible\<close> is documented as "Teams that must not cook
  for each other". In the worked instance teams 0 and 1 are given to it, the plan is
  feasible, and in the first course team 1 is a guest of the group whose chef is
  team 0: only the pairs in list order are constrained, the earlier team never being
  in a group where the later team cooks.
\<close>

theorem incompatible_one_direction:
  "feasible_for p4 v4 \<and> cook_incompatible (opts p4) = [0, 1] \<and>
   v4 (Chef 0 0 0) = 1 \<and> v4 (Assignment 1 0 0) = 1 \<and> v4 (Chef 1 0 0) = 0 \<and>
   cook (decode_group p4 v4 0 0) = Some 0 \<and> guests (decode_group p4 v4 0 0) = [1]"
proof -
  have "cook_incompatible (opts p4) = [0, 1]" by (simp add: p4_def default_args_def)
  moreover have "v4 (Chef 0 0 0) = 1" "v4 (Assignment 1 0 0) = 1" "v4 (Chef 1 0 0) = 0"
    by (simp_all add: group4_def chef4_def)
  moreover have "cook (decode_group p4 v4 0 0) = Some 0" "guests (decode_group p4 v4 0 0) = [1]"
    by code_simp+
  ultimately show ?thesis using feasible_p4 by simp
qed

section \<open>The group view makes no consistency check\<close>

text \<open>
  C6. Decoding a group never fails and checks nothing: the cook is the last team, in
  team order, whose assignment and chef variables both have value 1 (none when there
  is no such team), and the guests are the teams whose assignment variable has value 1
  and whose chef variable has not.
\<close>

theorem decode_group_unchecked:
  "cook (decode_group p v c g) =
     (case filter (\<lambda>t. v (Assignment t g c) = 1 \<and> v (Chef t g c) = 1) (teams p) of
        [] \<Rightarrow> None
      | x # xs \<Rightarrow> Some (last (x # xs))) \<and>
   guests (decode_group p v c g) =
     filter (\<lambda>t. v (Assignment t g c) = 1 \<and> \<not> v (Chef t g c) = 1) (teams p)"
  unfolding decode_group_def fold_group_cook fold_group_guests
  by (simp split: list.splits)

text \<open>
  With the chef variable of the first group cleared, the group view has no cook and
  both teams as guests; with a second chef variable set, the later team replaces the
  earlier one as cook, and the earlier one is not a guest either.
\<close>

theorem decode_group_no_error:
  "decode_group p4 (v4(Chef 0 0 0 := 0)) 0 0 = \<lparr>cook = None, guests = [0, 1]\<rparr> \<and>
   decode_group p4 (v4(Chef 1 0 0 := 1)) 0 0 = \<lparr>cook = Some 1, guests = []\<rparr>"
  by code_simp

section \<open>Preference weighting and the hard constraints\<close>

text \<open>
  C1. The model with preference weighting on and the model with it off have the same
  variables and the same constraints, except that only the model with preferences on
  contains \<open>chef(t,g,c) = 0\<close> for every team \<open>t\<close> and course \<open>c\<close> whose preference is
  at most -1000. Its feasible solutions are those of the other model in which no team
  hosts a course forbidden to it; the two feasible regions are equal when no
  preference is at most -1000.
\<close>

theorem prefs_toggle:
  assumes "build_model (with_ignore_preferences False p) = Inr m_on"
  shows "\<exists>m_off. build_model (with_ignore_preferences True p) = Inr m_off \<and>
           binaries m_on = binaries m_off \<and>
           set (constraints m_on) =
             set (constraints m_off) \<union>
             {no_chef_constr t g c | t g c.
                t < n_teams p \<and> c < n_courses p \<and> g < n_groups p \<and> pref p t c \<le> - 1000} \<and>
           (\<forall>v. feasible m_on v \<longleftrightarrow>
                  feasible m_off v \<and>
                  (\<forall>t<n_teams p. \<forall>c<n_courses p. \<forall>g<n_groups p.
                      pref p t c \<le> - 1000 \<longrightarrow> v (Chef t g c) = 0)) \<and>
           ((\<forall>t<n_teams p. \<forall>c<n_courses p. - 1000 < pref p t c) \<longrightarrow>
              (\<forall>v. feasible m_on v \<longleftrightarrow> feasible m_off v))"
proof -
  from build_off[OF assms] obtain m_off
    where off: "build_model (with_ignore_preferences True p) = Inr m_off" ..
  let ?N = "{no_chef_constr t g c | t g c.
                t < n_teams p \<and> c < n_courses p \<and> g < n_groups p \<and> pref p t c \<le> - 1000}"
  have b: "binaries m_on = binaries m_off"
    using build_model_constraints(2)[OF assms] build_model_constraints(2)[OF off]
    by (simp add: wip_families)
  have c: "set (constraints m_on) = set (constraints m_off) \<union> ?N"
    using build_model_constraints(1)[OF assms] build_model_constraints(1)[OF off]
    by (simp add: set_all_constraints_on set_no_chef_on)
  have n: "(\<forall>k\<in>?N. sat v k) \<longleftrightarrow>
           (\<forall>t<n_teams p. \<forall>c<n_courses p. \<forall>g<n_groups p.
                      pref p t c \<le> - 1000 \<longrightarrow> v (Chef t g c) = 0)" for v
  proof
    assume a: "\<forall>k\<in>?N. sat v k"
    show "\<forall>t<n_teams p. \<forall>c<n_courses p. \<forall>g<n_groups p.
            pref p t c \<le> - 1000 \<longrightarrow> v (Chef t g c) = 0"
    proof (intro allI impI)
      fix t c g
      assume "t < n_teams p" "c < n_courses p" "g < n_groups p" "pref p t c \<le> - 1000"
      then have "no_chef_constr t g c \<in> ?N" by blast
      from a[rule_format, OF this] show "v (Chef t g c) = 0"
        by (simp add: no_chef_constr_def)
    qed
  next
    assume "\<forall>t<n_teams p. \<forall>c<n_courses p. \<forall>g<n_groups p.
              pref p t c \<le> - 1000 \<longrightarrow> v (Chef t g c) = 0"
    then show "\<forall>k\<in>?N. sat v k"
      by (auto simp: no_chef_constr_def)
  qed
  have f: "feasible m_on v \<longleftrightarrow>
             feasible m_off v \<and>
             (\<forall>t<n_teams p. \<forall>c<n_courses p. \<forall>g<n_groups p.
                 pref p t c \<le> - 1000 \<longrightarrow> v (Chef t g c) = 0)" for v
    unfolding feasible_def b c ball_Un n by blast
  have "(\<forall>v. feasible m_on v \<longleftrightarrow> feasible m_off v)"
    if "\<forall>t<n_teams p. \<forall>c<n_courses p. - 1000 < pref p t c"
    using that unfolding f by (meson not_less)
  with off b c f show ?thesis by blast
qed

theorem prefs_toggle_witness:
  "\<exists>m_on m_off. build_model (with_ignore_preferences False p4) = Inr m_on \<and>
      build_model (with_ignore_preferences True p4) = Inr m_off \<and>
      binaries m_on = binaries m_off \<and> feasible m_on v4 \<and> feasible m_off v4 \<and>
      pref p4 0 1 \<le> - 1000 \<and> v4 (Chef 0 0 1) = 0"
proof -
  from feasible_p4 obtain m_on where on: "build_model p4 = Inr m_on" "feasible m_on v4"
    by (auto simp: feasible_for_iff)
  then have on': "build_model (with_ignore_preferences False p4) = Inr m_on"
    by (simp add: wip_p4)
  from prefs_toggle[OF on'] obtain m_off
    where off: "build_model (with_ignore_preferences True p4) = Inr m_off"
      "binaries m_on = binaries m_off"
      "\<forall>v. feasible m_on v \<longleftrightarrow>
                  feasible m_off v \<and>
                  (\<forall>t<n_teams p4. \<forall>c<n_courses p4. \<forall>g<n_groups p4.
                      pref p4 t c \<le> - 1000 \<longrightarrow> v (Chef t g c) = 0)"
    by blast
  from off(3) on(2) have "feasible m_off v4" by blast
  moreover have "pref p4 0 1 \<le> - 1000" "v4 (Chef 0 0 1) = 0"
    by (simp_all add: p4_def group4_def chef4_def)
  ultimately show ?thesis using on' on(2) off(1,2) by blast
qed

text \<open>
  With team 0 forbidden to host the first course, the plan in which it does so is
  feasible with preferences ignored and infeasible with preferences used.
\<close>

theorem prefs_toggle_counterexample:
  "feasible_for (with_ignore_preferences True p2) v2 \<and>
   \<not> feasible_for (with_ignore_preferences False p2) v2"
  by code_simp

section \<open>The preference term of the objective\<close>




section \<open>Team count not divisible by the course count\<close>

text \<open>
  C7. When the number of rows of the input is not a multiple of the number of courses,
  the run ends with an error and without a result: with exit status 1 once the rows
  are read (with ZeroDivisionError when there is no course), or earlier with the error
  of reading the file. The same error results whatever the travel-time engine and the
  solver would answer: neither is asked, and no model is built.
\<close>

theorem not_divisible_rejected:
  assumes "file = headers # rows" and "length rows mod nat (num_courses a) \<noteq> 0"
  shows "\<exists>e. run a ext solve file = Inl e \<and>
             (\<forall>ext' solve'. float_of ext' = float_of ext \<longrightarrow> run a ext' solve' file = Inl e) \<and>
             (\<forall>data. read_csv a (float_of ext) file = Inr data \<longrightarrow>
                e = (if nat (num_courses a) = 0 then ZeroDivisionError else SystemExit 1))"
proof -
  have r: "run a ext' solve' file =
     (case read_csv a (float_of ext') file of
        Inl e \<Rightarrow> Inl e
      | Inr data \<Rightarrow> Inl (if nat (num_courses a) = 0 then ZeroDivisionError else SystemExit 1))"
    for ext' solve'
    unfolding run_def assms(1) assemble_not_divisible[OF assms(2)]
    by (simp add: bind_err_def split: sum.splits)
  show ?thesis
  proof (cases "read_csv a (float_of ext) file")
    case (Inl e)
    with r show ?thesis by (intro exI[of _ e]) simp
  next
    case (Inr data)
    with r show ?thesis
      by (intro exI[of _ "if nat (num_courses a) = 0 then ZeroDivisionError else SystemExit 1"])
         simp
  qed
qed

theorem not_divisible_rejected_witness:
  "file3 = example_header # tl file3 \<and> length (tl file3) mod nat (num_courses example_args) \<noteq> 0 \<and>
   run example_args example_ext no_solver file3 = Inl (SystemExit 1) \<and>
   run example_args failing_ext no_solver file3 = Inl (SystemExit 1)"
proof -
  have f: "file3 = example_header # tl file3" by (simp add: file3_def file2_def)
  have n: "length (tl file3) mod nat (num_courses example_args) \<noteq> 0"
    by (simp add: file3_def file2_def example_args_def default_args_def)
  have d: "read_csv example_args (float_of example_ext) file3 \<noteq> Inl e" for e
    by (simp add: read_csv_def file3_def file2_def example_header_def check_headers_def
        example_args_def default_args_def bind_err_def parse_row_def cell_def)
  have k: "nat (num_courses example_args) \<noteq> 0"
    by (simp add: example_args_def default_args_def)
  have fl: "float_of failing_ext = float_of example_ext"
    by (simp add: failing_ext_def)
  from not_divisible_rejected[OF f n, of example_ext no_solver] obtain e where
    e: "run example_args example_ext no_solver file3 = Inl e"
      "\<forall>ext' solve'. float_of ext' = float_of example_ext \<longrightarrow>
          run example_args ext' solve' file3 = Inl e"
      "\<forall>data. read_csv example_args (float_of example_ext) file3 = Inr data \<longrightarrow>
          e = (if nat (num_courses example_args) = 0 then ZeroDivisionError else SystemExit 1)"
    by blast
  obtain data where "read_csv example_args (float_of example_ext) file3 = Inr data"
    using d by (cases "read_csv example_args (float_of example_ext) file3") auto
  with e(3) k have "e = SystemExit 1" by simp
  with e(1) e(2)[rule_format, OF fl] f n show ?thesis by simp
qed

section \<open>A failing route request\<close>

text \<open>
  C9. The distance loop catches the failure of a route request in order to print and
  re-raise it. With the engine in use a geocoded point is a dictionary, so the first
  value to print, \<^verbatim>\<open>a["geo"].name\<close>, raises AttributeError inside the handler: the run
  aborts before any model is built and no distance is defaulted, but the error that
  leaves the program is the handler's, not the engine's.
\<close>

theorem provider_failure_replaced:
  "route_between_points failing_ext \<lparr>pos = (0, 0), osm = ''Street 1''\<rparr>
     \<lparr>pos = (0, 0), osm = ''Street 2''\<rparr> 0 = Inl ConnectionError \<and>
   assemble example_args failing_ext file2 = Inl AttributeError \<and>
   run example_args failing_ext no_solver file2 = Inl AttributeError \<and>
   (case bind_err (assemble example_args example_ext file2) (to_problem example_args) of
      Inl e \<Rightarrow> False
    | Inr p \<Rightarrow> n_teams p = 2 \<and> distance_matrix p 0 1 0 = 10 \<and> distance_matrix p 1 0 1 = 10)"
proof -
  have 1: "route_between_points failing_ext \<lparr>pos = (0, 0), osm = ''Street 1''\<rparr>
     \<lparr>pos = (0, 0), osm = ''Street 2''\<rparr> 0 = Inl ConnectionError"
    by (simp add: failing_ext_def)
  have "case assemble example_args failing_ext file2 of
          Inl e \<Rightarrow> e = AttributeError | Inr asm \<Rightarrow> False"
    by code_simp
  then have 2: "assemble example_args failing_ext file2 = Inl AttributeError"
    by (simp split: sum.splits)
  then have 3: "run example_args failing_ext no_solver file2 = Inl AttributeError"
    by (simp add: run_def bind_err_def)
  have 4: "case bind_err (assemble example_args example_ext file2) (to_problem example_args) of
      Inl e \<Rightarrow> False
    | Inr p \<Rightarrow> n_teams p = 2 \<and> distance_matrix p 0 1 0 = 10 \<and> distance_matrix p 1 0 1 = 10"
    by code_simp
  from 1 2 3 4 show ?thesis by (intro conjI)
qed

section \<open>Three courses, every distance ten minutes\<close>

text \<open>
  C3. In every feasible solution of a model with three courses, every distance between
  two teams 10 minutes and no afterparty: if teams may meet only once there are at
  least nine teams; every group of every course is decoded with one cook and two
  guests; a team travels 20 minutes when it hosts the first course (its first arc
  stays at home) and 30 minutes otherwise; and the largest travel time of a team
  is 30 minutes.
\<close>

theorem equal_distance_scenario:
  assumes "feasible_for p v" and "n_courses p = 3"
    and "\<forall>i<n_teams p. \<forall>j<n_teams p. \<forall>c<3.
           distance_matrix p i j c = (if i = j then 0 else 10)"
    and "\<forall>t<n_teams p. afterparty_dist p t = 0"
  shows "(\<not> can_meet_again (opts p) \<longrightarrow> 9 \<le> n_teams p) \<and>
         (\<forall>c<3. \<forall>g<n_groups p. \<exists>ch<n_teams p.
             cook (coursedata p v ! c ! g) = Some ch \<and>
             length (guests (coursedata p v ! c ! g)) = 2) \<and>
         (\<forall>t<n_teams p. team_distances p v ! t =
             (if v (Chef t (arc_group (active_arcs p v t ! 0)) 0) = 1 then 20 else 30)) \<and>
         Max (set (team_distances p v)) = 30"
proof (intro conjI allI impI)
  assume "\<not> can_meet_again (opts p)"
  from meet_once_needs_groups[OF assms(1) this] assms(2)
  have "3 \<le> n_teams p div 3" by (simp add: n_groups_def)
  then show "9 \<le> n_teams p" by simp
next
  fix c g :: nat assume c: "c < 3" and g: "g < n_groups p"
  have "coursedata p v ! c ! g = decode_group p v c g"
    using c g assms(2) by (simp add: coursedata_def courses_def groups_def)
  with decode_group_feasible[OF assms(1) g, of c] c assms(2)
  show "\<exists>ch<n_teams p. cook (coursedata p v ! c ! g) = Some ch \<and>
             length (guests (coursedata p v ! c ! g)) = 2"
    by auto
next
  fix t assume t: "t < n_teams p"
  then have "team_distances p v ! t = snd (decode_team p v t)"
    by (simp add: team_distances_def teams_def)
  with team_total_three[OF assms(1) t assms(2,3,4)]
  show "team_distances p v ! t =
             (if v (Chef t (arc_group (active_arcs p v t ! 0)) 0) = 1 then 20 else 30)"
    by simp
next
  have K: "2 \<le> n_courses p" "0 < n_courses p" using assms(2) by simp_all
  have tot: "snd (decode_team p v t) =
           (if v (Chef t (arc_group (active_arcs p v t ! 0)) 0) = 1 then 20 else 30)"
    if "t < n_teams p" for t
    using team_total_three[OF assms(1) that assms(2,3,4)] .
  from someone_hosts_later[OF assms(1) K(1)] obtain t0 where
    t0: "t0 < n_teams p" "\<forall>g<n_groups p. v (Chef t0 g 0) \<noteq> 1" by blast
  obtain i j g where a: "arcs_at p v t0 0 = [(0, i, j, g)]"
    using arcs_at_single[OF assms(1) t0(1) K(2)] by blast
  have "g < n_groups p" using first_course_host(3)[OF assms(1) t0(1) a] .
  moreover have "active_arcs p v t0 ! 0 = (0, i, j, g)"
    using active_arcs_nth[OF assms(1) t0(1) K(2)] a by simp
  ultimately have "v (Chef t0 (arc_group (active_arcs p v t0 ! 0)) 0) \<noteq> 1"
    using t0(2) by (simp add: arc_group_def)
  with tot[OF t0(1)] have "snd (decode_team p v t0) = 30" by simp
  then have in30: "30 \<in> set (team_distances p v)"
    using t0(1) by (force simp: team_distances_def)
  have le: "x \<le> 30" if "x \<in> set (team_distances p v)" for x
    using that tot by (auto simp: team_distances_def)
  show "Max (set (team_distances p v)) = 30"
    by (rule Max_eqI) (use in30 le in auto)
qed

theorem equal_distance_scenario_witness:
  "feasible_for p3 v3 \<and> n_courses p3 = 3 \<and>
   distance_matrix p3 0 1 2 = 10 \<and> distance_matrix p3 1 1 2 = 0 \<and> afterparty_dist p3 2 = 0 \<and>
   Max (set (team_distances p3 v3)) = 30 \<and>
   team_distances p3 v3 = [20, 30, 30] \<and>
   cook (coursedata p3 v3 ! 1 ! 0) = Some 1 \<and> guests (coursedata p3 v3 ! 1 ! 0) = [0, 2]"
proof -
  have K: "n_courses p3 = 3" by (simp add: p3_def n_courses_def default_args_def)
  have D: "\<forall>i<n_teams p3. \<forall>j<n_teams p3. \<forall>c<3.
       distance_matrix p3 i j c = (if i = j then 0 else 10)"
    by (simp add: p3_def)
  have A: "\<forall>t<n_teams p3. afterparty_dist p3 t = 0" by (simp add: p3_def)
  from equal_distance_scenario[OF feasible_p3 K D A]
  have "Max (set (team_distances p3 v3)) = 30" by blast
  moreover have "team_distances p3 v3 = [20, 30, 30]" by code_simp
  moreover have "cook (coursedata p3 v3 ! 1 ! 0) = Some 1"
    "guests (coursedata p3 v3 ! 1 ! 0) = [0, 2]" by code_simp+
  moreover have "distance_matrix p3 0 1 2 = 10" "distance_matrix p3 1 1 2 = 0"
    "afterparty_dist p3 2 = 0"
    by (simp_all add: p3_def)
  ultimately show ?thesis using feasible_p3 K by blast
qed

text \<open>
  With six teams, three courses and teams meeting only once the model has no feasible
  solution: the three teams of a group of the first course would need three different
  groups in the second course, and there are two.
\<close>

theorem scenario_infeasible: "Collect (feasible_for p6) = {}"
proof -
  have "\<not> feasible_for p6 v" for v
  proof
    assume f: "feasible_for p6 v"
    have "\<not> can_meet_again (opts p6)" "2 \<le> n_courses p6"
      by (simp_all add: p6_def default_args_def n_courses_def)
    from meet_once_needs_groups[OF f this]
    show False by (simp add: p6_def default_args_def n_courses_def n_groups_def)
  qed
  then show ?thesis by auto
qed

end
